theory Spec2Isabelle
  imports Main "HOL-Library.Char_ord" "HOL-Library.List_Lexorder"
begin

section \<open>The photo uploader of flickr-exporter\<close>

text \<open>
  The repository is one scheduled function, \<^verbatim>\<open>photoUploader\<close>, and one helper,
  \<^verbatim>\<open>downloadImage\<close>, in two variants: \<^verbatim>\<open>src/index.ts\<close> and an older version of the
  same file (\<^verbatim>\<open>part_000\<close>), whose definitions carry the suffix \<open>_part000\<close> here.
  The function talks to Flickr, to a Ghost blog, to the Firebase realtime database and to
  the local file system. Those four are kept in an explicit \<open>world\<close>; every call on
  one of them is written to a trace; whether a call throws is decided by a parameter of
  the run (\<open>throws\<close>), which sees the world and the call.

  Strings are lists of 8-bit characters, ordered by their codes; numbers are integers
  (the program's numbers are times in seconds and milliseconds, far below \<open>2^53\<close>).
\<close>

subsection \<open>JavaScript values\<close>

text \<open>
  What a \<^verbatim>\<open>catch (e)\<close> can receive here: an \<^verbatim>\<open>Error\<close> object carrying a message, or
  a bare string (a promise rejected with a string).
\<close>

datatype jsexn = JsError string | JsString string

text \<open>The values the field \<^verbatim>\<open>error\<close> of a status record takes.\<close>

datatype jsval = Null | Undefined | Str string

text \<open>\<^verbatim>\<open>(e as any).message\<close>: a string primitive has no such property.\<close>

fun message :: "jsexn \<Rightarrow> jsval" where
  "message (JsError m) = Str m"
| "message (JsString s) = Undefined"

text \<open>
  An awaited call returns, throws, or never settles (the promise of
  \<^verbatim>\<open>downloadImage\<close> is not always resolved or rejected).
\<close>

datatype 'a result = Returned 'a | Thrown jsexn | Pending

subsection \<open>Records of the program\<close>

text \<open>
  A photo as Flickr lists it. \<open>description\<close> is \<open>None\<close> when the object has no
  \<^verbatim>\<open>description\<close> property, \<open>Some c\<close> when \<^verbatim>\<open>description._content\<close> is \<open>c\<close>.
\<close>

record photo =
  photo_id :: string
  url_o :: string
  title :: string
  description :: "string option"
  dateupload :: int
  tags :: string

text \<open>The object \<^verbatim>\<open>photoStatus\<close> stored under \<^verbatim>\<open>photo_status/<id>\<close>.\<close>

record photoStatus =
  st_id :: string
  st_url_o :: string
  st_title :: string
  desc :: string
  date :: int
  st_tags :: string
  success :: bool
  error :: jsval

text \<open>The first argument of \<^verbatim>\<open>ghost.posts.add\<close>.\<close>

record post =
  post_title :: string
  html :: string
  status :: string
  post_tags :: "string list"
  feature_image :: string
  published_at :: string

subsection \<open>Built-ins of the language used by the program\<close>

text \<open>
  \<^verbatim>\<open>s.split(' ')\<close>: the pieces between single space characters. The empty string
  gives one empty piece, two adjacent spaces give an empty piece between them.
\<close>

fun split_str :: "char \<Rightarrow> string \<Rightarrow> string list" where
  "split_str sep [] = [[]]"
| "split_str sep (c # cs) =
     (if c = sep then [] # split_str sep cs
      else (c # hd (split_str sep cs)) # tl (split_str sep cs))"

text \<open>\<^verbatim>\<open>ws.join(' ')\<close>, the inverse used to describe tag strings.\<close>

fun join_str :: "char \<Rightarrow> string list \<Rightarrow> string" where
  "join_str sep [] = []"
| "join_str sep [w] = w"
| "join_str sep (w # v # ws) = w @ sep # join_str sep (v # ws)"

text \<open>
  \<^verbatim>\<open>path.basename\<close> (POSIX): trailing slashes are dropped, then the part after the
  last slash is taken.
\<close>

definition basename :: "string \<Rightarrow> string" where
  "basename p =
     rev (takeWhile (\<lambda>c. c \<noteq> CHR ''/'') (dropWhile (\<lambda>c. c = CHR ''/'') (rev p)))"

text \<open>
  \<^verbatim>\<open>path.resolve\<close> on \<^verbatim>\<open>/tmp/<name>\<close>, where \<open>name\<close> is a basename and so has no
  slash: only the names \<open>''''\<close>, \<open>''.''\<close> and \<open>''..''\<close> are rewritten.
\<close>

definition resolve_tmp :: "string \<Rightarrow> string" where
  "resolve_tmp name =
     (if name = [] \<or> name = ''.'' then ''/tmp''
      else if name = ''..'' then ''/''
      else ''/tmp/'' @ name)"

text \<open>Decimal digits of a non-negative number, padded with zeros to a width.\<close>

primrec pad :: "nat \<Rightarrow> int \<Rightarrow> string" where
  "pad 0 n = []"
| "pad (Suc k) n = pad k (n div 10) @ [char_of (48 + n mod 10)]"

text \<open>
  \<^verbatim>\<open>new Date(ms).toISOString()\<close>. A time value beyond 8.64e15 milliseconds from the
  epoch is an invalid date and the call throws a \<^verbatim>\<open>RangeError\<close>. The calendar
  date comes from the day number by the usual 400-year-era computation; years outside
  0..9999 are written with a sign and six digits.
\<close>

definition iso_year :: "int \<Rightarrow> string" where
  "iso_year y =
     (if 0 \<le> y \<and> y \<le> 9999 then pad 4 y
      else (if y < 0 then ''-'' else ''+'') @ pad 6 \<bar>y\<bar>)"

definition civil_from_days :: "int \<Rightarrow> int \<times> int \<times> int" where
  "civil_from_days days =
     (let z = days + 719468;
          era = z div 146097;
          doe = z - era * 146097;
          yoe = (doe - doe div 1460 + doe div 36524 - doe div 146096) div 365;
          doy = doe - (365 * yoe + yoe div 4 - yoe div 100);
          mp = (5 * doy + 2) div 153;
          d = doy - (153 * mp + 2) div 5 + 1;
          m = (if mp < 10 then mp + 3 else mp - 9);
          y = yoe + era * 400 + (if m \<le> 2 then 1 else 0)
      in (y, m, d))"

definition toISOString :: "int \<Rightarrow> string result" where
  "toISOString ms =
     (if \<bar>ms\<bar> > 8640000000000000 then Thrown (JsError ''Invalid time value'')
      else
        (let days = ms div 86400000;
             t = ms mod 86400000;
             (y, m, d) = civil_from_days days
         in Returned (iso_year y @ ''-'' @ pad 2 m @ ''-'' @ pad 2 d @ ''T''
              @ pad 2 (t div 3600000) @ '':'' @ pad 2 (t div 60000 mod 60) @ '':''
              @ pad 2 (t div 1000 mod 60) @ ''.'' @ pad 3 (t mod 1000) @ ''Z'')))"

text \<open>A value read from the database in a numeric context: \<^verbatim>\<open>null * 1000\<close> is 0.\<close>

fun to_number :: "int option \<Rightarrow> int" where
  "to_number None = 0"
| "to_number (Some n) = n"

subsection \<open>The world outside the function\<close>

text \<open>Every call the function makes on a collaborator, with its arguments.\<close>

datatype call =
    CheckpointGet
  | CheckpointSet int
  | GetPhotos "int option"
  | StatusGet string
  | StatusSet string photoStatus
  | Download string
  | ImagesUpload string
  | Unlink string
  | TagsBrowse
  | TagsAdd string
  | PostsAdd post

text \<open>
  The database (\<^verbatim>\<open>last_check_time\<close>, which reads as \<^verbatim>\<open>null\<close> until it is set, and
  \<^verbatim>\<open>photo_status\<close>), the files on disk, the tags and posts of the blog, and the calls
  made so far, oldest first.
\<close>

record world =
  last_check_time_db :: "int option"
  photo_status_db :: "string \<Rightarrow> photoStatus option"
  files :: "string set"
  ghost_tags :: "string list"
  ghost_posts :: "post list"
  trace :: "call list"

text \<open>What an HTTPS request for the image does.\<close>

datatype net_outcome =
    Response
  | RequestError string
  | BadUrl string
  | Stalled

text \<open>
  What the run does not control: the clock at the one \<^verbatim>\<open>new Date()\<close> of the run,
  which calls throw and with what, the photos Flickr lists for a
  \<^verbatim>\<open>min_upload_date\<close>, the outcome of each image request, and the URL the blog gives
  an uploaded file.
\<close>

record env =
  now :: int
  throws :: "world \<Rightarrow> call \<Rightarrow> jsexn option"
  flickr_photos :: "int option \<Rightarrow> photo list"
  net :: "string \<Rightarrow> net_outcome"
  hosted_url :: "string \<Rightarrow> string"

type_synonym 'a io = "world \<Rightarrow> 'a result \<times> world"

definition returnM :: "'a \<Rightarrow> 'a io" where
  "returnM x w = (Returned x, w)"

text \<open>\<^verbatim>\<open>await m; k\<close>: a throw or a promise that never settles ends the sequence.\<close>

definition bindM :: "'a io \<Rightarrow> ('a \<Rightarrow> 'b io) \<Rightarrow> 'b io" where
  "bindM m k w =
     (case m w of
        (Returned x, w') \<Rightarrow> k x w'
      | (Thrown e, w') \<Rightarrow> (Thrown e, w')
      | (Pending, w') \<Rightarrow> (Pending, w'))"

text \<open>A pure computation of the language that may throw.\<close>

definition liftR :: "'a result \<Rightarrow> 'a io" where
  "liftR r w = (r, w)"

text \<open>
  \<^verbatim>\<open>try { m } catch (e) { ... }\<close>: the caught value, if any. A promise that never
  settles is not caught.
\<close>

definition try_catch :: "unit io \<Rightarrow> jsexn option io" where
  "try_catch m w =
     (case m w of
        (Returned x, w') \<Rightarrow> (Returned None, w')
      | (Thrown e, w') \<Rightarrow> (Returned (Some e), w')
      | (Pending, w') \<Rightarrow> (Pending, w'))"

text \<open>
  A call on a collaborator: it is recorded, then it throws if the environment says so,
  and otherwise has its effect.
\<close>

definition ext_call :: "env \<Rightarrow> call \<Rightarrow> 'a io \<Rightarrow> 'a io" where
  "ext_call e c k w =
     (let w1 = w\<lparr>trace := trace w @ [c]\<rparr>
      in case throws e w c of Some x \<Rightarrow> (Thrown x, w1) | None \<Rightarrow> k w1)"

definition last_check_ref_get :: "env \<Rightarrow> int option io" where
  "last_check_ref_get e =
     ext_call e CheckpointGet (\<lambda>w. (Returned (last_check_time_db w), w))"

definition last_check_ref_set :: "env \<Rightarrow> int \<Rightarrow> unit io" where
  "last_check_ref_set e v =
     ext_call e (CheckpointSet v) (\<lambda>w. (Returned (), w\<lparr>last_check_time_db := Some v\<rparr>))"

definition photo_status_get :: "env \<Rightarrow> string \<Rightarrow> photoStatus option io" where
  "photo_status_get e i =
     ext_call e (StatusGet i) (\<lambda>w. (Returned (photo_status_db w i), w))"

definition photo_status_set :: "env \<Rightarrow> string \<Rightarrow> photoStatus \<Rightarrow> unit io" where
  "photo_status_set e i st =
     ext_call e (StatusSet i st)
       (\<lambda>w. (Returned (), w\<lparr>photo_status_db := (photo_status_db w)(i \<mapsto> st)\<rparr>))"

definition getPhotos :: "env \<Rightarrow> int option \<Rightarrow> photo list io" where
  "getPhotos e min_upload_date =
     ext_call e (GetPhotos min_upload_date)
       (\<lambda>w. (Returned (flickr_photos e min_upload_date), w))"

definition images_upload :: "env \<Rightarrow> string \<Rightarrow> string io" where
  "images_upload e filePath =
     ext_call e (ImagesUpload filePath) (\<lambda>w. (Returned (hosted_url e filePath), w))"

text \<open>\<^verbatim>\<open>fsPromises.unlink\<close>: a missing file is an error of its own.\<close>

definition unlink :: "env \<Rightarrow> string \<Rightarrow> unit io" where
  "unlink e filePath =
     ext_call e (Unlink filePath)
       (\<lambda>w. if filePath \<in> files w then (Returned (), w\<lparr>files := files w - {filePath}\<rparr>)
            else (Thrown (JsError (''ENOENT: no such file or directory, unlink '' @ filePath)), w))"

text \<open>\<^verbatim>\<open>ghost.tags.browse({ limit: 10000 })\<close> mapped to the names.\<close>

definition tags_browse :: "env \<Rightarrow> string list io" where
  "tags_browse e = ext_call e TagsBrowse (\<lambda>w. (Returned (take 10000 (ghost_tags w)), w))"

definition tags_add :: "env \<Rightarrow> string \<Rightarrow> unit io" where
  "tags_add e name =
     ext_call e (TagsAdd name) (\<lambda>w. (Returned (), w\<lparr>ghost_tags := ghost_tags w @ [name]\<rparr>))"

definition posts_add :: "env \<Rightarrow> post \<Rightarrow> unit io" where
  "posts_add e p =
     ext_call e (PostsAdd p) (\<lambda>w. (Returned (), w\<lparr>ghost_posts := ghost_posts w @ [p]\<rparr>))"

subsection \<open>downloadImage\<close>

text \<open>
  The write stream creates the destination file before the request is made. A response
  is piped into it and the promise resolves with the destination. A request error
  unlinks the file and only then rejects, with the message string itself; if that unlink
  fails the promise is never settled. A URL that \<^verbatim>\<open>https.get\<close> refuses throws inside
  the executor, which rejects the promise with the error object.
\<close>

definition download_to :: "env \<Rightarrow> string \<Rightarrow> string \<Rightarrow> string io" where
  "download_to e destination url w =
     (let w1 = w\<lparr>trace := trace w @ [Download url], files := insert destination (files w)\<rparr>
      in case net e url of
           Response \<Rightarrow> (Returned destination, w1)
         | RequestError m \<Rightarrow>
             (case unlink e destination w1 of
                (Returned u, w2) \<Rightarrow> (Thrown (JsString m), w2)
              | (r, w2) \<Rightarrow> (Pending, w2))
         | BadUrl m \<Rightarrow> (Thrown (JsError m), w1)
         | Stalled \<Rightarrow> (Pending, w1))"

text \<open>\<^verbatim>\<open>src/index.ts\<close>: the file goes to \<^verbatim>\<open>/tmp\<close>.\<close>

definition downloadImage :: "env \<Rightarrow> string \<Rightarrow> string io" where
  "downloadImage e url = download_to e (resolve_tmp (basename url)) url"

text \<open>The older variant: the file goes to the working directory.\<close>

definition downloadImage_part000 :: "env \<Rightarrow> string \<Rightarrow> string io" where
  "downloadImage_part000 e url = download_to e (basename url) url"

subsection \<open>photoUploader\<close>

text \<open>
  \<^verbatim>\<open>photo.description._content\<close>: a \<^verbatim>\<open>TypeError\<close> when the photo has no
  description object (its message is written here without the quotation marks around
  the property name).
\<close>

definition description_content :: "photo \<Rightarrow> string result" where
  "description_content p =
     (case description p of
        None \<Rightarrow> Thrown (JsError ''Cannot read properties of undefined (reading _content)'')
      | Some c \<Rightarrow> Returned c)"

text \<open>The object \<^verbatim>\<open>photoStatus\<close> as first built, before the attempt.\<close>

definition initial_status :: "photo \<Rightarrow> string \<Rightarrow> photoStatus" where
  "initial_status p c =
     \<lparr>st_id = photo_id p, st_url_o = url_o p, st_title = title p, desc = c,
      date = dateupload p, st_tags = tags p, success = True, error = Null\<rparr>"

text \<open>
  \<^verbatim>\<open>[...photo.tags.split(' '), 'flickr'].sort()\<close>. Without a comparator,
  \<^verbatim>\<open>sort\<close> orders strings by their code units; \<open>sort\<close> on \<open>string list\<close> orders
  them by the codes of their characters, a proper prefix first.
\<close>

definition tag_list :: "photo \<Rightarrow> string list" where
  "tag_list p = sort (split_str CHR '' '' (tags p) @ [''flickr''])"

text \<open>The loop over the tags: one \<^verbatim>\<open>ghost.tags.add\<close> for each tag not listed.\<close>

primrec create_tags :: "env \<Rightarrow> string list \<Rightarrow> string list \<Rightarrow> unit io" where
  "create_tags e ghostTags [] = returnM ()"
| "create_tags e ghostTags (tag # rest) =
     (if tag \<notin> set ghostTags
      then bindM (tags_add e tag) (\<lambda>u. create_tags e ghostTags rest)
      else create_tags e ghostTags rest)"

text \<open>
  The body of the \<^verbatim>\<open>try\<close> block. It is the same in both variants but for the
  download function, which is a parameter here.
\<close>

definition publish :: "(string \<Rightarrow> string io) \<Rightarrow> env \<Rightarrow> photo \<Rightarrow> unit io" where
  "publish dl e p =
     bindM (dl (url_o p)) (\<lambda>filePath.
     bindM (images_upload e filePath) (\<lambda>imageUpload_url.
     bindM (unlink e filePath) (\<lambda>u.
     bindM (tags_browse e) (\<lambda>ghostTags.
     bindM (create_tags e ghostTags (tag_list p)) (\<lambda>u.
     bindM (liftR (toISOString (dateupload p * 1000))) (\<lambda>published.
     bindM (liftR (description_content p)) (\<lambda>c.
     posts_add e
       \<lparr>post_title = title p, html = ''<p>'' @ c @ ''</p>'', status = ''published'',
        post_tags = tag_list p, feature_image = imageUpload_url,
        published_at = published\<rparr>)))))))"

text \<open>\<^verbatim>\<open>current_status && current_status.success\<close>\<close>

fun already_done :: "photoStatus option \<Rightarrow> bool" where
  "already_done None = False"
| "already_done (Some st) = success st"

text \<open>
  The status object after the \<^verbatim>\<open>try\<close>/\<^verbatim>\<open>catch\<close>: the \<^verbatim>\<open>catch\<close> branch
  clears \<^verbatim>\<open>success\<close> and stores \<^verbatim>\<open>e.message\<close>.
\<close>

fun final_status :: "photoStatus \<Rightarrow> jsexn option \<Rightarrow> photoStatus" where
  "final_status st None = st"
| "final_status st (Some x) = st\<lparr>success := False, error := message x\<rparr>"

text \<open>One iteration of the loop over the photos.\<close>

definition process_photo :: "(string \<Rightarrow> string io) \<Rightarrow> env \<Rightarrow> photo \<Rightarrow> unit io" where
  "process_photo dl e p =
     bindM (photo_status_get e (photo_id p)) (\<lambda>current_status.
       if already_done current_status then returnM ()
       else
         bindM (liftR (description_content p)) (\<lambda>c.
         bindM (try_catch (publish dl e p)) (\<lambda>caught.
         photo_status_set e (photo_id p) (final_status (initial_status p c) caught))))"

primrec photo_loop :: "(string \<Rightarrow> string io) \<Rightarrow> env \<Rightarrow> photo list \<Rightarrow> unit io" where
  "photo_loop dl e [] = returnM ()"
| "photo_loop dl e (p # ps) = bindM (process_photo dl e p) (\<lambda>u. photo_loop dl e ps)"

text \<open>
  \<^verbatim>\<open>Math.floor(new Date(new Date().getTime() - 24 * 60 * 60 * 1000).getTime() / 1000)\<close>
\<close>

definition next_check_time :: "int \<Rightarrow> int" where
  "next_check_time now_ms = (now_ms - 24 * 60 * 60 * 1000) div 1000"

text \<open>The older variant: \<^verbatim>\<open>Date.now()\<close>.\<close>

definition next_check_time_part000 :: "int \<Rightarrow> int" where
  "next_check_time_part000 now_ms = now_ms"

text \<open>
  \<^verbatim>\<open>src/index.ts\<close>. The first log line renders the checkpoint as a date, which throws
  on an invalid date; the other log lines cannot throw and are left out.
\<close>

definition photoUploader :: "env \<Rightarrow> unit io" where
  "photoUploader e =
     bindM (last_check_ref_get e) (\<lambda>last_check_time.
     bindM (liftR (toISOString (to_number last_check_time * 1000))) (\<lambda>logged.
     bindM (getPhotos e last_check_time) (\<lambda>photos.
     bindM (photo_loop (downloadImage e) e photos) (\<lambda>u.
     last_check_ref_set e (next_check_time (now e))))))"

definition photoUploader_part000 :: "env \<Rightarrow> unit io" where
  "photoUploader_part000 e =
     bindM (last_check_ref_get e) (\<lambda>last_check_time.
     bindM (getPhotos e last_check_time) (\<lambda>photos.
     bindM (photo_loop (downloadImage_part000 e) e photos) (\<lambda>u.
     last_check_ref_set e (next_check_time_part000 (now e)))))"


section \<open>Observing a run\<close>

text \<open>
  The calls that write the checkpoint.
\<close>

fun is_CheckpointSet :: "call \<Rightarrow> bool" where
  "is_CheckpointSet (CheckpointSet v) = True"
| "is_CheckpointSet c = False"

text \<open>
  What the attempt for a photo cannot change: the stored checkpoint, the stored
  statuses and the checkpoint writes made so far.
\<close>

definition durable :: "world \<Rightarrow> int option \<times> (string \<Rightarrow> photoStatus option) \<times> call list" where
  "durable w = (last_check_time_db w, photo_status_db w, filter is_CheckpointSet (trace w))"

text \<open>
  What the loop over the photos cannot change: the stored checkpoint and the
  checkpoint writes made so far.
\<close>

definition checkpointing :: "world \<Rightarrow> int option \<times> call list" where
  "checkpointing w = (last_check_time_db w, filter is_CheckpointSet (trace w))"

text \<open>
  The calls of a publish attempt and the write of a status: every call but the two on
  the checkpoint, the list query and the read of a status.
\<close>

fun touches_photo :: "call \<Rightarrow> bool" where
  "touches_photo CheckpointGet = False"
| "touches_photo (CheckpointSet v) = False"
| "touches_photo (GetPhotos t) = False"
| "touches_photo (StatusGet i) = False"
| "touches_photo c = True"

text \<open>
  What a skipped photo leaves alone: the statuses, the files, the tags and posts of the
  blog, and the calls of publish attempts and status writes made so far.
\<close>

definition published_state ::
  "world \<Rightarrow> (string \<Rightarrow> photoStatus option) \<times> string set \<times> string list \<times> post list \<times> call list" where
  "published_state w =
     (photo_status_db w, files w, ghost_tags w, ghost_posts w, filter touches_photo (trace w))"

text \<open>
  The names given to \<^verbatim>\<open>ghost.tags.add\<close>, in the order of the calls.
\<close>

fun tag_added :: "call \<Rightarrow> string list" where
  "tag_added (TagsAdd name) = [name]"
| "tag_added c = []"

definition tags_added :: "call list \<Rightarrow> string list" where
  "tags_added cs = concat (map tag_added cs)"

text \<open>
  The tags that a listing of the blog's tags does not show.
\<close>

definition missing_tags :: "string list \<Rightarrow> string list \<Rightarrow> string list" where
  "missing_tags ghostTags ts = filter (\<lambda>t. t \<notin> set ghostTags) ts"

text \<open>
  The post object built for a photo, from the description, the hosted URL and the
  rendered date.
\<close>

definition post_of :: "photo \<Rightarrow> string \<Rightarrow> string \<Rightarrow> string \<Rightarrow> post" where
  "post_of p c image_url pub =
     \<lparr>post_title = title p, html = ''<p>'' @ c @ ''</p>'', status = ''published'',
      post_tags = tag_list p, feature_image = image_url, published_at = pub\<rparr>"

text \<open>
  A computation keeps a projection of the world when no run of it changes its value.
\<close>

definition keeps :: "(world \<Rightarrow> 'b) \<Rightarrow> 'a io \<Rightarrow> bool" where
  "keeps f m = (\<forall>w. f (snd (m w)) = f w)"


text \<open>
  A computation leaves a status with \<open>success = True\<close> under an id as it is.
\<close>

definition sticky :: "string \<Rightarrow> 'a io \<Rightarrow> bool" where
  "sticky i m =
     (\<forall>w. already_done (photo_status_db w i) \<longrightarrow>
          photo_status_db (snd (m w)) i = photo_status_db w i)"

text \<open>
  The scheduler starts the function again and again, one run after the other; each run
  has its own environment.
\<close>

primrec run_all :: "env list \<Rightarrow> world \<Rightarrow> world" where
  "run_all [] w = w"
| "run_all (e # es) w = run_all es (snd (photoUploader e w))"

subsection \<open>The tag list in the words of the specification\<close>

text \<open>
  The specification describes the tag list as the set of the whitespace-separated tokens
  of the tag string together with \<open>''flickr''\<close>, in ascending order. This is that
  description, next to \<open>tag_list\<close>, which is the program's computation.
\<close>

definition is_space :: "char \<Rightarrow> bool" where
  "is_space c = (c = CHR '' '' \<or> c = CHR 0x09 \<or> c = CHR 0x0A \<or> c = CHR 0x0D)"

fun spec_split :: "string \<Rightarrow> string list" where
  "spec_split [] = [[]]"
| "spec_split (c # cs) =
     (if is_space c then [] # spec_split cs
      else (c # hd (spec_split cs)) # tl (spec_split cs))"

definition spec_tokens :: "string \<Rightarrow> string list" where
  "spec_tokens s = filter (\<lambda>t. t \<noteq> []) (spec_split s)"

definition spec_tag_list :: "string \<Rightarrow> string list" where
  "spec_tag_list s = sorted_list_of_set (set (spec_tokens s) \<union> {''flickr''})"

subsection \<open>Concrete runs\<close>

text \<open>
  One photo with the tag string \<open>''beach sunset''\<close>, a second one without a description,
  a blog that has the tags \<open>''beach''\<close> and \<open>''flickr''\<close>, and a database with a
  checkpoint and no status. In \<open>example_env\<close> every call succeeds; the other
  environments differ from it in one place each: no photo is listed, the database or
  Flickr cannot be reached, the image upload fails, the image request ends in an error,
  the status cannot be written.
\<close>

definition photo_A :: photo where
  "photo_A = \<lparr>photo_id = ''1'', url_o = ''https://f.example/a.jpg'',
     title = ''Alpha'', description = Some ''first'', dateupload = 1700000000,
     tags = ''beach sunset''\<rparr>"

definition photo_N :: photo where
  "photo_N = photo_A\<lparr>photo_id := ''2'', description := None\<rparr>"

definition post_A :: post where
  "post_A = \<lparr>post_title = ''Alpha'', html = ''<p>first</p>'', status = ''published'',
      post_tags = [''beach'', ''flickr'', ''sunset''],
      feature_image = ''https://b.example/tmp/a.jpg'',
      published_at = ''2023-11-14T22:13:20.000Z''\<rparr>"

definition status_A :: photoStatus where
  "status_A = \<lparr>st_id = ''1'', st_url_o = ''https://f.example/a.jpg'', st_title = ''Alpha'',
      desc = ''first'', date = 1700000000, st_tags = ''beach sunset'', success = True,
      error = Null\<rparr>"

definition failed_status_A :: "jsval \<Rightarrow> photoStatus" where
  "failed_status_A v = status_A\<lparr>success := False, error := v\<rparr>"

definition example_world :: world where
  "example_world = \<lparr>last_check_time_db = Some 1700000000, photo_status_db = Map.empty,
     files = {}, ghost_tags = [''beach'', ''flickr''], ghost_posts = [], trace = []\<rparr>"

definition done_world :: world where
  "done_world = example_world\<lparr>photo_status_db := [''1'' \<mapsto> status_A]\<rparr>"

definition listed_world :: world where
  "listed_world = example_world\<lparr>trace := [CheckpointGet, GetPhotos (Some 1700000000)]\<rparr>"

definition example_env :: env where
  "example_env = \<lparr>now = 1700100000123, throws = (\<lambda>w c. None),
     flickr_photos = (\<lambda>t. [photo_A]),
     net = (\<lambda>u. Response), hosted_url = (\<lambda>f. ''https://b.example'' @ f)\<rparr>"

definition quiet_env :: env where
  "quiet_env = example_env\<lparr>flickr_photos := (\<lambda>t. [])\<rparr>"

definition db_down :: "world \<Rightarrow> call \<Rightarrow> jsexn option" where
  "db_down w c = (if c = CheckpointGet then Some (JsError ''PERMISSION_DENIED'') else None)"

definition flickr_down :: "world \<Rightarrow> call \<Rightarrow> jsexn option" where
  "flickr_down w c =
     (case c of GetPhotos t \<Rightarrow> Some (JsError ''getaddrinfo ENOTFOUND api.flickr.com'')
      | _ \<Rightarrow> None)"

definition upload_down :: "world \<Rightarrow> call \<Rightarrow> jsexn option" where
  "upload_down w c =
     (case c of ImagesUpload f \<Rightarrow> Some (JsError ''Request failed with status code 500'')
      | _ \<Rightarrow> None)"

definition upload_down_env :: env where
  "upload_down_env = example_env\<lparr>throws := upload_down\<rparr>"

definition request_error_env :: env where
  "request_error_env = example_env\<lparr>net := (\<lambda>u. RequestError ''socket hang up'')\<rparr>"

definition status_write_down :: "world \<Rightarrow> call \<Rightarrow> jsexn option" where
  "status_write_down w c =
     (case c of StatusSet i st \<Rightarrow> Some (JsError ''PERMISSION_DENIED'') | _ \<Rightarrow> None)"

definition example_world_after :: world where
  "example_world_after = \<lparr>last_check_time_db = Some 1700013600,
     photo_status_db = [''1'' \<mapsto> status_A],
     files = {}, ghost_tags = [''beach'', ''flickr'', ''sunset''], ghost_posts = [post_A],
     trace = [CheckpointGet, GetPhotos (Some 1700000000), StatusGet ''1'',
        Download ''https://f.example/a.jpg'', ImagesUpload ''/tmp/a.jpg'', Unlink ''/tmp/a.jpg'',
        TagsBrowse, TagsAdd ''sunset'', PostsAdd post_A, StatusSet ''1'' status_A,
        CheckpointSet 1700013600]\<rparr>"

definition upload_down_world_after :: world where
  "upload_down_world_after = \<lparr>last_check_time_db = Some 1700013600,
     photo_status_db = [''1'' \<mapsto> failed_status_A (Str ''Request failed with status code 500'')],
     files = {''/tmp/a.jpg''}, ghost_tags = [''beach'', ''flickr''], ghost_posts = [],
     trace = [CheckpointGet, GetPhotos (Some 1700000000), StatusGet ''1'',
        Download ''https://f.example/a.jpg'', ImagesUpload ''/tmp/a.jpg'',
        StatusSet ''1'' (failed_status_A (Str ''Request failed with status code 500'')),
        CheckpointSet 1700013600]\<rparr>"

definition request_error_world_after :: world where
  "request_error_world_after = \<lparr>last_check_time_db = Some 1700013600,
     photo_status_db = [''1'' \<mapsto> failed_status_A Undefined],
     files = {}, ghost_tags = [''beach'', ''flickr''], ghost_posts = [],
     trace = [CheckpointGet, GetPhotos (Some 1700000000), StatusGet ''1'',
        Download ''https://f.example/a.jpg'', Unlink ''/tmp/a.jpg'',
        StatusSet ''1'' (failed_status_A Undefined),
        CheckpointSet 1700013600]\<rparr>"


section \<open>Properties of the run\<close>

subsection \<open>Sequencing and projections that are kept\<close>

lemma keepsD: "keeps f m \<Longrightarrow> m w = (r, w') \<Longrightarrow> f w' = f w"
  by (metis keeps_def snd_conv)

lemma keeps_returnM: "keeps f (returnM x)"
  by (simp add: keeps_def returnM_def)

lemma keeps_liftR: "keeps f (liftR r)"
  by (simp add: keeps_def liftR_def)

lemma keeps_bindM:
  assumes "keeps f m" and "\<And>x. keeps f (k x)"
  shows "keeps f (bindM m k)"
  unfolding keeps_def
proof
  fix w
  obtain r w1 where m: "m w = (r, w1)" by (cases "m w")
  have w1: "f w1 = f w" using assms(1) m by (rule keepsD)
  show "f (snd (bindM m k w)) = f w"
  proof (cases r)
    case (Returned x)
    have "f (snd (k x w1)) = f w1" using assms(2) by (simp add: keeps_def)
    then show ?thesis using m Returned w1 by (simp add: bindM_def)
  next
    case (Thrown x)
    then show ?thesis using m w1 by (simp add: bindM_def)
  next
    case Pending
    then show ?thesis using m w1 by (simp add: bindM_def)
  qed
qed

lemma keepsI: "(\<And>w r w'. m w = (r, w') \<Longrightarrow> f w' = f w) \<Longrightarrow> keeps f m"
  by (simp add: keeps_def) (metis prod.collapse)

lemma keeps_try_catch:
  assumes "keeps f m"
  shows "keeps f (try_catch m)"
proof (rule keepsI)
  fix w r w'
  assume t: "try_catch m w = (r, w')"
  obtain r1 w1 where m: "m w = (r1, w1)" by (cases "m w")
  have "f w1 = f w" using assms m by (rule keepsD)
  moreover have "w' = w1" using t m by (cases r1) (simp_all add: try_catch_def)
  ultimately show "f w' = f w" by simp
qed

lemma keeps_ext_call:
  assumes "\<And>w. f (w\<lparr>trace := trace w @ [c]\<rparr>) = f w" and "keeps f k"
  shows "keeps f (ext_call e c k)"
  using assms by (simp add: keeps_def ext_call_def Let_def split: option.splits)

lemma durable_trace: "\<not> is_CheckpointSet c \<Longrightarrow> durable (w\<lparr>trace := trace w @ [c]\<rparr>) = durable w"
  by (simp add: durable_def)


lemma keeps_durable_unlink: "keeps durable (unlink e f)"
  unfolding unlink_def by (rule keeps_ext_call) (simp_all add: durable_def keeps_def)


lemma keeps_download_to:
  assumes u: "keeps f (unlink e d)"
    and t: "\<And>w. f (w\<lparr>trace := trace w @ [Download u], files := insert d (files w)\<rparr>) = f w"
  shows "keeps f (download_to e d u)"
proof (rule keepsI)
  fix w r w'
  assume dl: "download_to e d u w = (r, w')"
  define w1 where "w1 = w\<lparr>trace := trace w @ [Download u], files := insert d (files w)\<rparr>"
  have w1: "f w1 = f w" by (simp add: w1_def t)
  obtain r2 w2 where un: "unlink e d w1 = (r2, w2)" by (cases "unlink e d w1")
  have w2: "f w2 = f w1" using u un by (rule keepsD)
  show "f w' = f w"
  proof (cases "net e u")
    case Response
    then show ?thesis using dl w1 by (simp add: download_to_def w1_def Let_def)
  next
    case (RequestError m)
    then have "w' = w2"
      using dl un by (cases r2) (simp_all add: download_to_def w1_def Let_def)
    then show ?thesis using w1 w2 by simp
  next
    case (BadUrl m)
    then show ?thesis using dl w1 by (simp add: download_to_def w1_def Let_def)
  next
    case Stalled
    then show ?thesis using dl w1 by (simp add: download_to_def w1_def Let_def)
  qed
qed

lemma keeps_durable_download_to: "keeps durable (download_to e d u)"
  by (rule keeps_download_to) (simp_all add: keeps_durable_unlink durable_def)


lemma bindM_ReturnedD:
  assumes "bindM m k w = (Returned y, w2)"
  shows "\<exists>x w1. m w = (Returned x, w1) \<and> k x w1 = (Returned y, w2)"
proof -
  obtain r w1 where m: "m w = (r, w1)" by (cases "m w")
  show ?thesis using assms m by (cases r) (simp_all add: bindM_def)
qed

lemma ext_call_ReturnedD:
  assumes "ext_call e c k w = (Returned y, w2)"
  shows "throws e w c = None \<and> k (w\<lparr>trace := trace w @ [c]\<rparr>) = (Returned y, w2)"
  using assms by (simp add: ext_call_def Let_def split: option.splits)

lemma last_check_ref_set_ReturnedD:
  assumes "last_check_ref_set e v w = (Returned y, w2)"
  shows "w2 = w\<lparr>trace := trace w @ [CheckpointSet v], last_check_time_db := Some v\<rparr>"
  using ext_call_ReturnedD [OF assms [unfolded last_check_ref_set_def]] by simp

lemma photoUploader_ends:
  assumes "photoUploader e w = (Returned y, w2)"
  shows "\<exists>w1. w2 = w1\<lparr>trace := trace w1 @ [CheckpointSet (next_check_time (now e))],
                       last_check_time_db := Some (next_check_time (now e))\<rparr>"
proof -
  from assms obtain a wa where
    "bindM (liftR (toISOString (to_number a * 1000))) (\<lambda>logged.
     bindM (getPhotos e a) (\<lambda>photos.
     bindM (photo_loop (downloadImage e) e photos) (\<lambda>u.
     last_check_ref_set e (next_check_time (now e))))) wa = (Returned y, w2)"
    unfolding photoUploader_def by (drule_tac bindM_ReturnedD) blast
  then obtain wb where
    "bindM (getPhotos e a) (\<lambda>photos.
     bindM (photo_loop (downloadImage e) e photos) (\<lambda>u.
     last_check_ref_set e (next_check_time (now e)))) wb = (Returned y, w2)"
    by (drule_tac bindM_ReturnedD) blast
  then obtain ps wc where
    "bindM (photo_loop (downloadImage e) e ps) (\<lambda>u.
     last_check_ref_set e (next_check_time (now e))) wc = (Returned y, w2)"
    by (drule_tac bindM_ReturnedD) blast
  then obtain w1 where
    "last_check_ref_set e (next_check_time (now e)) w1 = (Returned y, w2)"
    by (drule_tac bindM_ReturnedD) blast
  then show ?thesis by (blast dest: last_check_ref_set_ReturnedD)
qed

lemma photoUploader_part000_ends:
  assumes "photoUploader_part000 e w = (Returned y, w2)"
  shows "\<exists>w1. w2 = w1\<lparr>trace := trace w1 @ [CheckpointSet (next_check_time_part000 (now e))],
                       last_check_time_db := Some (next_check_time_part000 (now e))\<rparr>"
proof -
  from assms obtain a wb where
    "bindM (getPhotos e a) (\<lambda>photos.
     bindM (photo_loop (downloadImage_part000 e) e photos) (\<lambda>u.
     last_check_ref_set e (next_check_time_part000 (now e)))) wb = (Returned y, w2)"
    unfolding photoUploader_part000_def by (drule_tac bindM_ReturnedD) blast
  then obtain ps wc where
    "bindM (photo_loop (downloadImage_part000 e) e ps) (\<lambda>u.
     last_check_ref_set e (next_check_time_part000 (now e))) wc = (Returned y, w2)"
    by (drule_tac bindM_ReturnedD) blast
  then obtain w1 where
    "last_check_ref_set e (next_check_time_part000 (now e)) w1 = (Returned y, w2)"
    by (drule_tac bindM_ReturnedD) blast
  then show ?thesis by (blast dest: last_check_ref_set_ReturnedD)
qed

text \<open>
  Claim C5. Under the safety-margin policy of \<^verbatim>\<open>src/index.ts\<close>, a run that returns has
  stored as checkpoint the run's time minus 24 hours in Unix seconds,
  \<open>(now - 86400000) div 1000\<close>, whatever checkpoint it read at the start; the write of
  that value is the last call of the run.
\<close>

theorem safety_margin_checkpoint:
  assumes "photoUploader e w = (Returned (), w')"
  shows "last_check_time_db w' = Some ((now e - 86400000) div 1000)
         \<and> last (trace w') = CheckpointSet ((now e - 86400000) div 1000)"
  using photoUploader_ends [OF assms] by (auto simp: next_check_time_def)

lemma next_check_time_less: "0 \<le> t \<Longrightarrow> next_check_time t < next_check_time_part000 t"
  by (simp add: next_check_time_def next_check_time_part000_def)

lemma next_check_time_before_epoch:
  "next_check_time (- 86487) = next_check_time_part000 (- 86487)"
  by (simp add: next_check_time_def next_check_time_part000_def)

text \<open>
  Claim C9. At the same run time (at or after the epoch) and from the same world, the
  checkpoint stored by \<^verbatim>\<open>src/index.ts\<close> (seconds, a day back) and the one stored by the
  older variant (\<^verbatim>\<open>Date.now()\<close>, milliseconds) differ.
\<close>

theorem checkpoint_policies_differ:
  assumes "0 \<le> now e"
    and "photoUploader e w = (Returned (), w1)"
    and "photoUploader_part000 e w = (Returned (), w2)"
  shows "last_check_time_db w1 = Some ((now e - 86400000) div 1000)
         \<and> last_check_time_db w2 = Some (now e)
         \<and> last_check_time_db w1 \<noteq> last_check_time_db w2"
  using photoUploader_ends [OF assms(2)] photoUploader_part000_ends [OF assms(3)]
    next_check_time_less [OF assms(1)]
  by (auto simp: next_check_time_def next_check_time_part000_def)


lemma keeps_durable_images_upload: "keeps durable (images_upload e f)"
  unfolding images_upload_def by (rule keeps_ext_call) (simp_all add: durable_def keeps_def)

lemma keeps_durable_tags_browse: "keeps durable (tags_browse e)"
  unfolding tags_browse_def by (rule keeps_ext_call) (simp_all add: durable_def keeps_def)

lemma keeps_durable_tags_add: "keeps durable (tags_add e n)"
  unfolding tags_add_def by (rule keeps_ext_call) (simp_all add: durable_def keeps_def)

lemma keeps_durable_posts_add: "keeps durable (posts_add e n)"
  unfolding posts_add_def by (rule keeps_ext_call) (simp_all add: durable_def keeps_def)

lemma keeps_durable_photo_status_get: "keeps durable (photo_status_get e i)"
  unfolding photo_status_get_def by (rule keeps_ext_call) (simp_all add: durable_def keeps_def)

lemma keeps_durable_getPhotos: "keeps durable (getPhotos e t)"
  unfolding getPhotos_def by (rule keeps_ext_call) (simp_all add: durable_def keeps_def)

lemma keeps_durable_last_check_ref_get: "keeps durable (last_check_ref_get e)"
  unfolding last_check_ref_get_def by (rule keeps_ext_call) (simp_all add: durable_def keeps_def)

lemma keeps_durable_create_tags: "keeps durable (create_tags e g ts)"
  by (induction ts) (simp_all add: keeps_returnM keeps_bindM keeps_durable_tags_add)

lemma keeps_durable_publish:
  assumes "\<And>u. keeps durable (dl u)"
  shows "keeps durable (publish dl e p)"
  unfolding publish_def
  by (intro keeps_bindM assms keeps_durable_images_upload keeps_durable_unlink
      keeps_durable_tags_browse keeps_durable_create_tags keeps_liftR keeps_durable_posts_add)

lemma keeps_durable_downloadImage: "keeps durable (downloadImage e u)"
  unfolding downloadImage_def by (rule keeps_durable_download_to)

lemma keeps_durable_downloadImage_part000: "keeps durable (downloadImage_part000 e u)"
  unfolding downloadImage_part000_def by (rule keeps_durable_download_to)

lemma keeps_checkpointing:
  assumes "keeps durable m"
  shows "keeps checkpointing m"
proof (rule keepsI)
  fix w r w'
  assume "m w = (r, w')"
  with assms have "durable w' = durable w" by (rule keepsD)
  then show "checkpointing w' = checkpointing w"
    by (simp add: durable_def checkpointing_def)
qed

lemma keeps_checkpointing_photo_status_set: "keeps checkpointing (photo_status_set e i st)"
  unfolding photo_status_set_def
  by (rule keeps_ext_call) (simp_all add: checkpointing_def keeps_def)

lemma keeps_checkpointing_process_photo:
  assumes "\<And>u. keeps durable (dl u)"
  shows "keeps checkpointing (process_photo dl e p)"
proof -
  have pub: "keeps checkpointing (try_catch (publish dl e p))"
    by (intro keeps_try_catch keeps_checkpointing keeps_durable_publish assms)
  have get: "keeps checkpointing (photo_status_get e (photo_id p))"
    by (intro keeps_checkpointing keeps_durable_photo_status_get)
  have rest: "keeps checkpointing
      (if already_done cs then returnM ()
       else bindM (liftR (description_content p)) (\<lambda>c.
            bindM (try_catch (publish dl e p)) (\<lambda>caught.
            photo_status_set e (photo_id p) (final_status (initial_status p c) caught))))" for cs
    by (simp add: keeps_returnM keeps_bindM keeps_liftR pub keeps_checkpointing_photo_status_set)
  show ?thesis unfolding process_photo_def using get rest by (rule keeps_bindM)
qed

lemma keeps_checkpointing_photo_loop:
  assumes "\<And>u. keeps durable (dl u)"
  shows "keeps checkpointing (photo_loop dl e ps)"
  by (induction ps) (simp_all add: keeps_returnM keeps_bindM keeps_checkpointing_process_photo assms)
















lemma process_photo_skip:
  assumes "already_done (photo_status_db w (photo_id p))"
  shows "process_photo dl e p w =
    ((case throws e w (StatusGet (photo_id p)) of Some x \<Rightarrow> Thrown x | None \<Rightarrow> Returned ()),
     w\<lparr>trace := trace w @ [StatusGet (photo_id p)]\<rparr>)"
  using assms
  by (simp add: process_photo_def bindM_def photo_status_get_def ext_call_def Let_def
      returnM_def split: option.splits)

lemma bindM_Returned: "m w = (Returned x, w1) \<Longrightarrow> bindM m k w = k x w1"
  by (simp add: bindM_def)

lemma bindM_Thrown: "m w = (Thrown x, w1) \<Longrightarrow> bindM m k w = (Thrown x, w1)"
  by (simp add: bindM_def)

lemma bindM_Pending: "m w = (Pending, w1) \<Longrightarrow> bindM m k w = (Pending, w1)"
  by (simp add: bindM_def)

lemma ext_call_ok: "throws e w c = None \<Longrightarrow> ext_call e c k w = k (w\<lparr>trace := trace w @ [c]\<rparr>)"
  by (simp add: ext_call_def)

lemma ext_call_throws:
  "throws e w c = Some x \<Longrightarrow> ext_call e c k w = (Thrown x, w\<lparr>trace := trace w @ [c]\<rparr>)"
  by (simp add: ext_call_def)

lemma process_photo_attempt:
  assumes "throws e w (StatusGet (photo_id p)) = None"
    and "\<not> already_done (photo_status_db w (photo_id p))"
    and "description p = Some c"
  shows "process_photo dl e p w =
    bindM (try_catch (publish dl e p))
      (\<lambda>caught. photo_status_set e (photo_id p) (final_status (initial_status p c) caught))
      (w\<lparr>trace := trace w @ [StatusGet (photo_id p)]\<rparr>)"
proof -
  define w1 where "w1 = w\<lparr>trace := trace w @ [StatusGet (photo_id p)]\<rparr>"
  have g: "photo_status_get e (photo_id p) w = (Returned (photo_status_db w (photo_id p)), w1)"
    by (simp add: photo_status_get_def ext_call_ok assms(1) w1_def)
  have d: "liftR (description_content p) w1 = (Returned c, w1)"
    by (simp add: liftR_def description_content_def assms(3))
  show ?thesis
    unfolding process_photo_def w1_def [symmetric]
    by (simp add: bindM_def g d assms(2))
qed

lemma process_photo_no_description:
  assumes "throws e w (StatusGet (photo_id p)) = None"
    and "\<not> already_done (photo_status_db w (photo_id p))"
    and "description p = None"
  shows "process_photo dl e p w =
    (Thrown (JsError ''Cannot read properties of undefined (reading _content)''),
     w\<lparr>trace := trace w @ [StatusGet (photo_id p)]\<rparr>)"
proof -
  define w1 where "w1 = w\<lparr>trace := trace w @ [StatusGet (photo_id p)]\<rparr>"
  have g: "photo_status_get e (photo_id p) w = (Returned (photo_status_db w (photo_id p)), w1)"
    by (simp add: photo_status_get_def ext_call_ok assms(1) w1_def)
  have d: "liftR (description_content p) w1 =
      (Thrown (JsError ''Cannot read properties of undefined (reading _content)''), w1)"
    by (simp add: liftR_def description_content_def assms(3))
  show ?thesis
    unfolding process_photo_def w1_def [symmetric]
    by (simp add: bindM_def g d assms(2))
qed

lemma process_photo_get_throws:
  assumes "throws e w (StatusGet (photo_id p)) = Some x"
  shows "process_photo dl e p w = (Thrown x, w\<lparr>trace := trace w @ [StatusGet (photo_id p)]\<rparr>)"
  unfolding process_photo_def
  by (rule bindM_Thrown) (simp add: photo_status_get_def ext_call_throws assms)

subsection \<open>One iteration of the loop\<close>

lemma sticky_keeps:
  assumes "keeps durable m"
  shows "sticky i m"
  unfolding sticky_def
proof (intro allI impI)
  fix w :: world
  have "durable (snd (m w)) = durable w" using assms by (simp add: keeps_def)
  then show "photo_status_db (snd (m w)) i = photo_status_db w i"
    by (simp add: durable_def)
qed

lemma sticky_returnM: "sticky i (returnM x)"
  by (simp add: sticky_def returnM_def)

lemma sticky_bindM:
  assumes "sticky i m" and "\<And>x. sticky i (k x)"
  shows "sticky i (bindM m k)"
  unfolding sticky_def
proof (intro allI impI)
  fix w :: world
  assume dn: "already_done (photo_status_db w i)"
  obtain r w1 where m: "m w = (r, w1)" by (cases "m w")
  have w1: "photo_status_db w1 i = photo_status_db w i"
    using assms(1) dn m by (auto simp: sticky_def dest: spec [of _ w])
  show "photo_status_db (snd (bindM m k w)) i = photo_status_db w i"
  proof (cases r)
    case (Returned x)
    have "photo_status_db (snd (k x w1)) i = photo_status_db w1 i"
      using assms(2) [of x] dn w1 by (simp add: sticky_def)
    then show ?thesis using m Returned w1 by (simp add: bindM_def)
  next
    case (Thrown x)
    then show ?thesis using m w1 by (simp add: bindM_def)
  next
    case Pending
    then show ?thesis using m w1 by (simp add: bindM_def)
  qed
qed

lemma sticky_photo_status_set: "i \<noteq> j \<Longrightarrow> sticky i (photo_status_set e j st)"
  by (simp add: sticky_def photo_status_set_def ext_call_def Let_def split: option.splits)

lemma sticky_last_check_ref_set: "sticky i (last_check_ref_set e v)"
  by (simp add: sticky_def last_check_ref_set_def ext_call_def Let_def split: option.splits)

lemma sticky_process_photo:
  assumes "\<And>u. keeps durable (dl u)"
  shows "sticky i (process_photo dl e p)"
proof (cases "i = photo_id p")
  case True
  show ?thesis unfolding sticky_def True
    by (simp add: process_photo_skip)
next
  case False
  have pub: "sticky i (try_catch (publish dl e p))"
    by (intro sticky_keeps keeps_try_catch keeps_durable_publish assms)
  have get: "sticky i (photo_status_get e (photo_id p))"
    by (intro sticky_keeps keeps_durable_photo_status_get)
  have rest: "sticky i
      (if already_done cs then returnM ()
       else bindM (liftR (description_content p)) (\<lambda>c.
            bindM (try_catch (publish dl e p)) (\<lambda>caught.
            photo_status_set e (photo_id p) (final_status (initial_status p c) caught))))" for cs
    by (simp add: sticky_returnM sticky_bindM sticky_keeps [OF keeps_liftR] pub
        sticky_photo_status_set [OF False])
  show ?thesis unfolding process_photo_def using get rest by (rule sticky_bindM)
qed

lemma sticky_photo_loop:
  assumes "\<And>u. keeps durable (dl u)"
  shows "sticky i (photo_loop dl e ps)"
  by (induction ps) (simp_all add: sticky_returnM sticky_bindM sticky_process_photo assms)

lemma sticky_photoUploader: "sticky i (photoUploader e)"
  unfolding photoUploader_def
  by (intro sticky_bindM sticky_keeps [OF keeps_durable_last_check_ref_get]
      sticky_keeps [OF keeps_liftR] sticky_keeps [OF keeps_durable_getPhotos]
      sticky_photo_loop keeps_durable_downloadImage sticky_last_check_ref_set)

lemma sticky_photoUploader_part000: "sticky i (photoUploader_part000 e)"
  unfolding photoUploader_part000_def
  by (intro sticky_bindM sticky_keeps [OF keeps_durable_last_check_ref_get]
      sticky_keeps [OF keeps_durable_getPhotos]
      sticky_photo_loop keeps_durable_downloadImage_part000 sticky_last_check_ref_set)

lemma run_all_sticky:
  "already_done (photo_status_db w i) \<Longrightarrow> photo_status_db (run_all es w) i = photo_status_db w i"
proof (induction es arbitrary: w)
  case Nil
  then show ?case by simp
next
  case (Cons e es)
  have step: "photo_status_db (snd (photoUploader e w)) i = photo_status_db w i"
    using sticky_photoUploader [of i e] Cons.prems by (simp add: sticky_def)
  then have "already_done (photo_status_db (snd (photoUploader e w)) i)"
    using Cons.prems by simp
  from Cons.IH [OF this] step show ?case by simp
qed


subsection \<open>The steps before the loop\<close>

lemma toISOString_cases:
  "toISOString ms = Thrown (JsError ''Invalid time value'') \<or> (\<exists>s. toISOString ms = Returned s)"
  by (simp add: toISOString_def Let_def split: prod.splits)

lemma last_check_ref_get_ok:
  "throws e w CheckpointGet = None \<Longrightarrow>
   last_check_ref_get e w = (Returned (last_check_time_db w), w\<lparr>trace := trace w @ [CheckpointGet]\<rparr>)"
  by (simp add: last_check_ref_get_def ext_call_ok)

lemma last_check_ref_get_throws:
  "throws e w CheckpointGet = Some x \<Longrightarrow>
   last_check_ref_get e w = (Thrown x, w\<lparr>trace := trace w @ [CheckpointGet]\<rparr>)"
  by (simp add: last_check_ref_get_def ext_call_throws)

lemma getPhotos_ok:
  "throws e w (GetPhotos t) = None \<Longrightarrow>
   getPhotos e t w = (Returned (flickr_photos e t), w\<lparr>trace := trace w @ [GetPhotos t]\<rparr>)"
  by (simp add: getPhotos_def ext_call_ok)

lemma getPhotos_throws:
  "throws e w (GetPhotos t) = Some x \<Longrightarrow>
   getPhotos e t w = (Thrown x, w\<lparr>trace := trace w @ [GetPhotos t]\<rparr>)"
  by (simp add: getPhotos_def ext_call_throws)

lemma photoUploader_get_throws:
  assumes "throws e w CheckpointGet = Some x"
  shows "photoUploader e w = (Thrown x, w\<lparr>trace := trace w @ [CheckpointGet]\<rparr>)"
  unfolding photoUploader_def
  by (simp add: bindM_def last_check_ref_get_throws [OF assms])

lemma photoUploader_part000_get_throws:
  assumes "throws e w CheckpointGet = Some x"
  shows "photoUploader_part000 e w = (Thrown x, w\<lparr>trace := trace w @ [CheckpointGet]\<rparr>)"
  unfolding photoUploader_part000_def
  by (simp add: bindM_def last_check_ref_get_throws [OF assms])

lemma photoUploader_log_throws:
  assumes "throws e w CheckpointGet = None"
    and "toISOString (to_number (last_check_time_db w) * 1000) = Thrown x"
  shows "photoUploader e w = (Thrown x, w\<lparr>trace := trace w @ [CheckpointGet]\<rparr>)"
  unfolding photoUploader_def
  by (simp add: bindM_def last_check_ref_get_ok [OF assms(1)] liftR_def assms(2))

lemma photoUploader_list_throws:
  assumes "throws e w CheckpointGet = None"
    and "toISOString (to_number (last_check_time_db w) * 1000) = Returned s"
    and "throws e (w\<lparr>trace := trace w @ [CheckpointGet]\<rparr>) (GetPhotos (last_check_time_db w)) = Some x"
  shows "photoUploader e w =
    (Thrown x, w\<lparr>trace := trace w @ [CheckpointGet, GetPhotos (last_check_time_db w)]\<rparr>)"
  unfolding photoUploader_def
  by (simp add: bindM_def last_check_ref_get_ok [OF assms(1)] liftR_def assms(2)
      getPhotos_throws [OF assms(3)])

lemma photoUploader_part000_list_throws:
  assumes "throws e w CheckpointGet = None"
    and "throws e (w\<lparr>trace := trace w @ [CheckpointGet]\<rparr>) (GetPhotos (last_check_time_db w)) = Some x"
  shows "photoUploader_part000 e w =
    (Thrown x, w\<lparr>trace := trace w @ [CheckpointGet, GetPhotos (last_check_time_db w)]\<rparr>)"
  unfolding photoUploader_part000_def
  by (simp add: bindM_def last_check_ref_get_ok [OF assms(1)] getPhotos_throws [OF assms(2)])

lemma photoUploader_listed:
  assumes "throws e w CheckpointGet = None"
    and "toISOString (to_number (last_check_time_db w) * 1000) = Returned s"
    and "throws e (w\<lparr>trace := trace w @ [CheckpointGet]\<rparr>) (GetPhotos (last_check_time_db w)) = None"
  shows "photoUploader e w =
    bindM (photo_loop (downloadImage e) e (flickr_photos e (last_check_time_db w)))
      (\<lambda>u. last_check_ref_set e (next_check_time (now e)))
      (w\<lparr>trace := trace w @ [CheckpointGet, GetPhotos (last_check_time_db w)]\<rparr>)"
  unfolding photoUploader_def
  by (simp add: bindM_def last_check_ref_get_ok [OF assms(1)] liftR_def assms(2)
      getPhotos_ok [OF assms(3)])

lemma photoUploader_part000_listed:
  assumes "throws e w CheckpointGet = None"
    and "throws e (w\<lparr>trace := trace w @ [CheckpointGet]\<rparr>) (GetPhotos (last_check_time_db w)) = None"
  shows "photoUploader_part000 e w =
    bindM (photo_loop (downloadImage_part000 e) e (flickr_photos e (last_check_time_db w)))
      (\<lambda>u. last_check_ref_set e (next_check_time_part000 (now e)))
      (w\<lparr>trace := trace w @ [CheckpointGet, GetPhotos (last_check_time_db w)]\<rparr>)"
  unfolding photoUploader_part000_def
  by (simp add: bindM_def last_check_ref_get_ok [OF assms(1)] getPhotos_ok [OF assms(2)])

lemma toISOString_valid:
  "\<bar>ms\<bar> \<le> 8640000000000000 \<Longrightarrow> \<exists>s. toISOString ms = Returned s"
  by (simp add: toISOString_def Let_def split: prod.splits)

text \<open>
  Claim C7. If the read of the checkpoint throws, or the photo list query throws, the
  run ends with that exception and the world is the one it started from but for the
  record of the calls made: no status is written and the checkpoint is not moved. In
  \<^verbatim>\<open>src/index.ts\<close> the list query is reached when the checkpoint read renders as a
  date.
\<close>

theorem abort_before_loop:
  "(throws e w CheckpointGet = Some x \<longrightarrow>
      photoUploader e w = (Thrown x, w\<lparr>trace := trace w @ [CheckpointGet]\<rparr>)
      \<and> photoUploader_part000 e w = (Thrown x, w\<lparr>trace := trace w @ [CheckpointGet]\<rparr>))
   \<and> (throws e w CheckpointGet = None
        \<and> throws e (w\<lparr>trace := trace w @ [CheckpointGet]\<rparr>) (GetPhotos (last_check_time_db w)) = Some x \<longrightarrow>
      (\<bar>to_number (last_check_time_db w) * 1000\<bar> \<le> 8640000000000000 \<longrightarrow>
       photoUploader e w =
         (Thrown x, w\<lparr>trace := trace w @ [CheckpointGet, GetPhotos (last_check_time_db w)]\<rparr>))
      \<and> photoUploader_part000 e w =
         (Thrown x, w\<lparr>trace := trace w @ [CheckpointGet, GetPhotos (last_check_time_db w)]\<rparr>))"
proof (intro conjI impI)
  assume "throws e w CheckpointGet = Some x"
  then show "photoUploader e w = (Thrown x, w\<lparr>trace := trace w @ [CheckpointGet]\<rparr>)"
    and "photoUploader_part000 e w = (Thrown x, w\<lparr>trace := trace w @ [CheckpointGet]\<rparr>)"
    by (rule photoUploader_get_throws, rule photoUploader_part000_get_throws)
next
  assume a: "throws e w CheckpointGet = None
        \<and> throws e (w\<lparr>trace := trace w @ [CheckpointGet]\<rparr>) (GetPhotos (last_check_time_db w)) = Some x"
  then show "photoUploader_part000 e w =
         (Thrown x, w\<lparr>trace := trace w @ [CheckpointGet, GetPhotos (last_check_time_db w)]\<rparr>)"
    by (simp add: photoUploader_part000_list_throws)
  assume "\<bar>to_number (last_check_time_db w) * 1000\<bar> \<le> 8640000000000000"
  then obtain s where "toISOString (to_number (last_check_time_db w) * 1000) = Returned s"
    by (blast dest: toISOString_valid)
  then show "photoUploader e w =
         (Thrown x, w\<lparr>trace := trace w @ [CheckpointGet, GetPhotos (last_check_time_db w)]\<rparr>)"
    using a by (simp add: photoUploader_list_throws)
qed

subsection \<open>Photos that are already published\<close>

lemma published_trace:
  "\<not> touches_photo c \<Longrightarrow> published_state (w\<lparr>trace := trace w @ [c]\<rparr>) = published_state w"
  by (simp add: published_state_def)


lemma photo_loop_all_done:
  assumes "\<forall>p\<in>set ps. already_done (photo_status_db w (photo_id p))"
  shows "published_state (snd (photo_loop dl e ps w)) = published_state w"
  using assms
proof (induction ps arbitrary: w)
  case Nil
  then show ?case by (simp add: returnM_def)
next
  case (Cons p ps)
  define w1 where "w1 = w\<lparr>trace := trace w @ [StatusGet (photo_id p)]\<rparr>"
  have w1: "published_state w1 = published_state w"
    unfolding w1_def by (rule published_trace) simp
  have dn: "already_done (photo_status_db w (photo_id p))"
    using Cons.prems by simp
  show ?case
  proof (cases "throws e w (StatusGet (photo_id p))")
    case None
    then have "process_photo dl e p w = (Returned (), w1)"
      by (simp add: process_photo_skip [OF dn] w1_def)
    then have step: "photo_loop dl e (p # ps) w = photo_loop dl e ps w1"
      by (simp add: bindM_def)
    have "\<forall>q\<in>set ps. already_done (photo_status_db w1 (photo_id q))"
      using Cons.prems by (simp add: w1_def)
    from Cons.IH [OF this] step w1 show ?thesis by simp
  next
    case (Some x)
    then have "process_photo dl e p w = (Thrown x, w1)"
      by (simp add: process_photo_skip [OF dn] w1_def)
    then have "photo_loop dl e (p # ps) w = (Thrown x, w1)"
      by (simp add: bindM_def)
    then show ?thesis using w1 by simp
  qed
qed

lemma keeps_published_last_check_ref_set: "keeps published_state (last_check_ref_set e v)"
  unfolding last_check_ref_set_def
  by (rule keeps_ext_call) (simp_all add: published_state_def keeps_def)

lemma loop_then_set_all_done:
  assumes "\<forall>p\<in>set ps. already_done (photo_status_db w (photo_id p))"
  shows "published_state (snd (bindM (photo_loop dl e ps) (\<lambda>u. last_check_ref_set e v) w)) = published_state w"
proof -
  obtain r w1 where l: "photo_loop dl e ps w = (r, w1)" by (cases "photo_loop dl e ps w")
  have w1: "published_state w1 = published_state w"
    using photo_loop_all_done [OF assms, of dl e] l by simp
  show ?thesis
  proof (cases r)
    case (Returned u)
    have "published_state (snd (last_check_ref_set e v w1)) = published_state w1"
      using keeps_published_last_check_ref_set by (simp add: keeps_def)
    then show ?thesis using l Returned w1 by (simp add: bindM_def)
  next
    case (Thrown x)
    then show ?thesis using l w1 by (simp add: bindM_def)
  next
    case Pending
    then show ?thesis using l w1 by (simp add: bindM_def)
  qed
qed

lemma photoUploader_all_done:
  assumes "\<forall>p\<in>set (flickr_photos e (last_check_time_db w)). already_done (photo_status_db w (photo_id p))"
  shows "published_state (snd (photoUploader e w)) = published_state w"
proof (cases "throws e w CheckpointGet")
  case (Some x)
  then show ?thesis by (simp add: photoUploader_get_throws published_trace)
next
  case None
  note get = this
  define w1 where "w1 = w\<lparr>trace := trace w @ [CheckpointGet]\<rparr>"
  define w2 where "w2 = w\<lparr>trace := trace w @ [CheckpointGet, GetPhotos (last_check_time_db w)]\<rparr>"
  have w2: "published_state w2 = published_state w" by (simp add: w2_def published_state_def)
  from toISOString_cases [of "to_number (last_check_time_db w) * 1000"]
  show ?thesis
  proof
    assume "toISOString (to_number (last_check_time_db w) * 1000) = Thrown (JsError ''Invalid time value'')"
    then show ?thesis using get by (simp add: photoUploader_log_throws published_trace)
  next
    assume "\<exists>s. toISOString (to_number (last_check_time_db w) * 1000) = Returned s"
    then obtain s where iso: "toISOString (to_number (last_check_time_db w) * 1000) = Returned s" ..
    show ?thesis
    proof (cases "throws e w1 (GetPhotos (last_check_time_db w))")
      case (Some x)
      then show ?thesis
        using photoUploader_list_throws [OF get iso, of x]
        by (simp add: w1_def published_state_def)
    next
      case None
      have "\<forall>p\<in>set (flickr_photos e (last_check_time_db w)). already_done (photo_status_db w2 (photo_id p))"
        using assms by (simp add: w2_def)
      from loop_then_set_all_done [OF this] w2
      show ?thesis
        using photoUploader_listed [OF get iso] None by (simp add: w1_def w2_def)
    qed
  qed
qed

lemma photoUploader_part000_all_done:
  assumes "\<forall>p\<in>set (flickr_photos e (last_check_time_db w)). already_done (photo_status_db w (photo_id p))"
  shows "published_state (snd (photoUploader_part000 e w)) = published_state w"
proof (cases "throws e w CheckpointGet")
  case (Some x)
  then show ?thesis by (simp add: photoUploader_part000_get_throws published_trace)
next
  case None
  note get = this
  define w1 where "w1 = w\<lparr>trace := trace w @ [CheckpointGet]\<rparr>"
  define w2 where "w2 = w\<lparr>trace := trace w @ [CheckpointGet, GetPhotos (last_check_time_db w)]\<rparr>"
  have w2: "published_state w2 = published_state w" by (simp add: w2_def published_state_def)
  show ?thesis
  proof (cases "throws e w1 (GetPhotos (last_check_time_db w))")
    case (Some x)
    then show ?thesis
      using photoUploader_part000_list_throws [OF get, of x]
      by (simp add: w1_def published_state_def)
  next
    case None
    have "\<forall>p\<in>set (flickr_photos e (last_check_time_db w)). already_done (photo_status_db w2 (photo_id p))"
      using assms by (simp add: w2_def)
    from loop_then_set_all_done [OF this] w2
    show ?thesis
      using photoUploader_part000_listed [OF get] None by (simp add: w1_def w2_def)
  qed
qed

text \<open>
  Claim C1. A photo whose stored status has \<open>success = True\<close> costs one read of that
  status and nothing else. A run whose candidates all have such a status leaves the
  statuses, the files, the tags and the posts as they were and makes none of the
  publish or status-write calls. A status with \<open>success = True\<close> is never changed by a
  run, so the photo is skipped in every later run.
\<close>

theorem skip_published:
  "(already_done (photo_status_db w (photo_id p)) \<longrightarrow>
      snd (process_photo dl e p w) = w\<lparr>trace := trace w @ [StatusGet (photo_id p)]\<rparr>)
   \<and> ((\<forall>q\<in>set (flickr_photos e (last_check_time_db w)).
          already_done (photo_status_db w (photo_id q))) \<longrightarrow>
        published_state (snd (photoUploader e w)) = published_state w
        \<and> published_state (snd (photoUploader_part000 e w)) = published_state w)
   \<and> (already_done (photo_status_db w i) \<longrightarrow>
        photo_status_db (snd (photoUploader e w)) i = photo_status_db w i
        \<and> photo_status_db (snd (photoUploader_part000 e w)) i = photo_status_db w i
        \<and> photo_status_db (run_all es w) i = photo_status_db w i)"
  using sticky_photoUploader [of i e] sticky_photoUploader_part000 [of i e]
  by (simp add: process_photo_skip photoUploader_all_done photoUploader_part000_all_done
      run_all_sticky sticky_def)


subsection \<open>The loop completes whatever the publish attempts do\<close>


lemma photo_status_set_ok:
  "throws e w (StatusSet i st) = None \<Longrightarrow>
   photo_status_set e i st w =
     (Returned (), w\<lparr>trace := trace w @ [StatusSet i st], photo_status_db := (photo_status_db w)(i \<mapsto> st)\<rparr>)"
  by (simp add: photo_status_set_def ext_call_ok)

lemma photo_status_set_throws:
  "throws e w (StatusSet i st) = Some x \<Longrightarrow>
   photo_status_set e i st w = (Thrown x, w\<lparr>trace := trace w @ [StatusSet i st]\<rparr>)"
  by (simp add: photo_status_set_def ext_call_throws)






subsection \<open>An exception out of one iteration\<close>

lemma photo_loop_stops:
  assumes "photo_loop dl e ps w = (Returned (), w1)"
    and "process_photo dl e p w1 = (Thrown x, w2)"
  shows "photo_loop dl e (ps @ p # rest) w = (Thrown x, w2)"
  using assms(1)
proof (induction ps arbitrary: w)
  case Nil
  then show ?case using assms(2) by (simp add: returnM_def bindM_def)
next
  case (Cons q qs)
  from Cons.prems obtain u w' where q: "process_photo dl e q w = (Returned u, w')"
    and rest: "photo_loop dl e qs w' = (Returned (), w1)"
    by (auto dest: bindM_ReturnedD)
  from Cons.IH [OF rest] q show ?case by (simp add: bindM_def)
qed

lemma process_photo_set_throws:
  assumes "throws e w (StatusGet (photo_id p)) = None"
    and "\<not> already_done (photo_status_db w (photo_id p))"
    and "description p = Some c"
    and "try_catch (publish dl e p) (w\<lparr>trace := trace w @ [StatusGet (photo_id p)]\<rparr>)
          = (Returned caught, w2)"
    and "throws e w2 (StatusSet (photo_id p) (final_status (initial_status p c) caught)) = Some x"
  shows "process_photo dl e p w =
    (Thrown x,
     w2\<lparr>trace := trace w2 @ [StatusSet (photo_id p) (final_status (initial_status p c) caught)]\<rparr>)"
  by (simp add: process_photo_attempt [OF assms(1,2,3)] bindM_def assms(4)
      photo_status_set_throws [OF assms(5)])

lemma try_catch_durable:
  assumes "\<And>u. keeps durable (dl u)"
    and "try_catch (publish dl e p) w = (r, w2)"
  shows "durable w2 = durable w"
  using keeps_try_catch [OF keeps_durable_publish [of dl e p, OF assms(1)]] assms(2)
  by (rule keepsD)

text \<open>
  Claim C10. The status object is built before the \<^verbatim>\<open>try\<close> and written after the
  \<^verbatim>\<open>catch\<close>. For a photo that is reached by the loop and not skipped: if it has no
  description, building the status object throws; if the write of its status throws,
  that exception is not caught either. In both cases the run ends with the exception,
  its last call is that photo's, so the photos after it are not processed, and the
  stored checkpoint is the one the run started with.
\<close>

theorem capture_gaps:
  assumes get: "throws e w CheckpointGet = None"
    and date: "\<bar>to_number (last_check_time_db w) * 1000\<bar> \<le> 8640000000000000"
    and list: "throws e (w\<lparr>trace := trace w @ [CheckpointGet]\<rparr>)
                 (GetPhotos (last_check_time_db w)) = None"
    and photos: "flickr_photos e (last_check_time_db w) = ps @ p # rest"
    and before: "photo_loop (downloadImage e) e ps
                   (w\<lparr>trace := trace w @ [CheckpointGet, GetPhotos (last_check_time_db w)]\<rparr>)
                 = (Returned (), w1)"
    and sget: "throws e w1 (StatusGet (photo_id p)) = None"
    and fresh: "\<not> already_done (photo_status_db w1 (photo_id p))"
  shows "(description p = None \<longrightarrow>
            photoUploader e w =
              (Thrown (JsError ''Cannot read properties of undefined (reading _content)''),
               w1\<lparr>trace := trace w1 @ [StatusGet (photo_id p)]\<rparr>)
            \<and> last_check_time_db w1 = last_check_time_db w
            \<and> filter is_CheckpointSet (trace w1) = filter is_CheckpointSet (trace w))
    \<and> (description p = Some c
         \<and> try_catch (publish (downloadImage e) e p)
               (w1\<lparr>trace := trace w1 @ [StatusGet (photo_id p)]\<rparr>) = (Returned caught, w2)
         \<and> throws e w2 (StatusSet (photo_id p) (final_status (initial_status p c) caught))
               = Some x \<longrightarrow>
            photoUploader e w =
              (Thrown x,
               w2\<lparr>trace := trace w2 @
                  [StatusSet (photo_id p) (final_status (initial_status p c) caught)]\<rparr>)
            \<and> last_check_time_db w2 = last_check_time_db w
            \<and> photo_status_db w2 = photo_status_db w1
            \<and> filter is_CheckpointSet (trace w2) = filter is_CheckpointSet (trace w))"
proof -
  define w0 where "w0 = w\<lparr>trace := trace w @ [CheckpointGet, GetPhotos (last_check_time_db w)]\<rparr>"
  obtain s where iso: "toISOString (to_number (last_check_time_db w) * 1000) = Returned s"
    using toISOString_valid [OF date] ..
  have run: "photoUploader e w =
      bindM (photo_loop (downloadImage e) e (ps @ p # rest))
        (\<lambda>u. last_check_ref_set e (next_check_time (now e))) w0"
    unfolding w0_def using photoUploader_listed [OF get iso list] photos by simp
  have "checkpointing w1 = checkpointing w0"
    using keeps_checkpointing_photo_loop [of "downloadImage e", OF keeps_durable_downloadImage]
      before [folded w0_def]
    by (rule keepsD)
  then have w1: "last_check_time_db w1 = last_check_time_db w
      \<and> filter is_CheckpointSet (trace w1) = filter is_CheckpointSet (trace w)"
    by (simp add: checkpointing_def w0_def)
  have first: "photoUploader e w =
      (Thrown (JsError ''Cannot read properties of undefined (reading _content)''),
       w1\<lparr>trace := trace w1 @ [StatusGet (photo_id p)]\<rparr>)"
    if "description p = None"
  proof -
    have "photo_loop (downloadImage e) e (ps @ p # rest) w0 =
      (Thrown (JsError ''Cannot read properties of undefined (reading _content)''),
       w1\<lparr>trace := trace w1 @ [StatusGet (photo_id p)]\<rparr>)"
      using before [folded w0_def] process_photo_no_description [OF sget fresh that]
      by (rule photo_loop_stops)
    then show ?thesis by (simp add: run bindM_def)
  qed
  have second: "photoUploader e w =
      (Thrown x,
       w2\<lparr>trace := trace w2 @
          [StatusSet (photo_id p) (final_status (initial_status p c) caught)]\<rparr>)
      \<and> last_check_time_db w2 = last_check_time_db w
      \<and> photo_status_db w2 = photo_status_db w1
      \<and> filter is_CheckpointSet (trace w2) = filter is_CheckpointSet (trace w)"
    if d: "description p = Some c"
      and t: "try_catch (publish (downloadImage e) e p)
               (w1\<lparr>trace := trace w1 @ [StatusGet (photo_id p)]\<rparr>) = (Returned caught, w2)"
      and x: "throws e w2 (StatusSet (photo_id p) (final_status (initial_status p c) caught))
               = Some x"
  proof -
    have "photo_loop (downloadImage e) e (ps @ p # rest) w0 =
      (Thrown x,
       w2\<lparr>trace := trace w2 @
          [StatusSet (photo_id p) (final_status (initial_status p c) caught)]\<rparr>)"
      using before [folded w0_def] process_photo_set_throws [OF sget fresh d t x]
      by (rule photo_loop_stops)
    then have r: "photoUploader e w =
      (Thrown x,
       w2\<lparr>trace := trace w2 @
          [StatusSet (photo_id p) (final_status (initial_status p c) caught)]\<rparr>)"
      by (simp add: run bindM_def)
    have "durable w2 = durable (w1\<lparr>trace := trace w1 @ [StatusGet (photo_id p)]\<rparr>)"
      using keeps_durable_downloadImage t by (rule try_catch_durable)
    then show ?thesis using r w1 by (simp add: durable_def)
  qed
  show ?thesis using first second w1 by blast
qed

subsection \<open>A publish attempt that returns\<close>

lemma liftR_ReturnedD: "liftR r w = (Returned x, w1) \<Longrightarrow> r = Returned x \<and> w1 = w"
  by (simp add: liftR_def)

lemma download_to_ReturnedD:
  assumes "download_to e d u w = (Returned f, w1)"
  shows "f = d \<and> net e u = Response
    \<and> w1 = w\<lparr>trace := trace w @ [Download u], files := insert d (files w)\<rparr>"
proof (cases "net e u")
  case Response
  then show ?thesis using assms by (auto simp: download_to_def Let_def)
next
  case (RequestError m)
  obtain r w2 where
    "unlink e d (w\<lparr>trace := trace w @ [Download u], files := insert d (files w)\<rparr>) = (r, w2)"
    by (cases "unlink e d (w\<lparr>trace := trace w @ [Download u], files := insert d (files w)\<rparr>)")
  then show ?thesis
    using assms RequestError by (cases r) (simp_all add: download_to_def Let_def)
next
  case (BadUrl m)
  then show ?thesis using assms by (auto simp: download_to_def Let_def)
next
  case Stalled
  then show ?thesis using assms by (auto simp: download_to_def Let_def)
qed

lemma images_upload_ReturnedD:
  assumes "images_upload e f w = (Returned url, w1)"
  shows "url = hosted_url e f \<and> w1 = w\<lparr>trace := trace w @ [ImagesUpload f]\<rparr>"
  using ext_call_ReturnedD [OF assms [unfolded images_upload_def]] by simp

lemma unlink_ReturnedD:
  assumes "unlink e f w = (Returned u, w1)"
  shows "w1 = w\<lparr>trace := trace w @ [Unlink f], files := files w - {f}\<rparr>"
  using ext_call_ReturnedD [OF assms [unfolded unlink_def]] by (simp split: if_splits)

lemma tags_browse_ReturnedD:
  assumes "tags_browse e w = (Returned g, w1)"
  shows "g = take 10000 (ghost_tags w) \<and> w1 = w\<lparr>trace := trace w @ [TagsBrowse]\<rparr>"
  using ext_call_ReturnedD [OF assms [unfolded tags_browse_def]] by simp

lemma tags_add_ReturnedD:
  assumes "tags_add e n w = (Returned u, w1)"
  shows "w1 = w\<lparr>trace := trace w @ [TagsAdd n], ghost_tags := ghost_tags w @ [n]\<rparr>"
  using ext_call_ReturnedD [OF assms [unfolded tags_add_def]] by simp

lemma posts_add_ReturnedD:
  assumes "posts_add e p w = (Returned u, w1)"
  shows "w1 = w\<lparr>trace := trace w @ [PostsAdd p], ghost_posts := ghost_posts w @ [p]\<rparr>"
  using ext_call_ReturnedD [OF assms [unfolded posts_add_def]] by simp

lemma create_tags_ReturnedD:
  assumes "create_tags e g ts w = (Returned u, w1)"
  shows "w1 = w\<lparr>trace := trace w @ map TagsAdd (missing_tags g ts),
                  ghost_tags := ghost_tags w @ missing_tags g ts\<rparr>"
  using assms
proof (induction ts arbitrary: w)
  case Nil
  then show ?case by (simp add: returnM_def missing_tags_def)
next
  case (Cons t ts)
  show ?case
  proof (cases "t \<in> set g")
    case True
    then have "create_tags e g ts w = (Returned u, w1)" using Cons.prems by simp
    from Cons.IH [OF this] True show ?thesis by (simp add: missing_tags_def)
  next
    case False
    then have "bindM (tags_add e t) (\<lambda>u. create_tags e g ts) w = (Returned u, w1)"
      using Cons.prems by simp
    then obtain v w' where a: "tags_add e t w = (Returned v, w')"
      and b: "create_tags e g ts w' = (Returned u, w1)"
      by (blast dest: bindM_ReturnedD)
    from Cons.IH [OF b] tags_add_ReturnedD [OF a] False
    show ?thesis by (simp add: missing_tags_def)
  qed
qed

lemma description_content_ReturnedD:
  "description_content p = Returned c \<Longrightarrow> description p = Some c"
  by (simp add: description_content_def split: option.splits)

lemma publish_ReturnedD:
  assumes "publish (download_to e d) e p w = (Returned u, w')"
  shows "\<exists>c iso. description p = Some c
    \<and> toISOString (dateupload p * 1000) = Returned iso
    \<and> net e (url_o p) = Response
    \<and> w' = w\<lparr>trace := trace w @ [Download (url_o p), ImagesUpload d, Unlink d, TagsBrowse]
                  @ map TagsAdd (missing_tags (take 10000 (ghost_tags w)) (tag_list p))
                  @ [PostsAdd (post_of p c (hosted_url e d) iso)],
              files := files w - {d},
              ghost_tags := ghost_tags w @ missing_tags (take 10000 (ghost_tags w)) (tag_list p),
              ghost_posts := ghost_posts w @ [post_of p c (hosted_url e d) iso]\<rparr>"
proof -
  from assms [unfolded publish_def]
  obtain filePath wa where 1: "download_to e d (url_o p) w = (Returned filePath, wa)"
    and r1: "bindM (images_upload e filePath) (\<lambda>imageUpload_url.
     bindM (unlink e filePath) (\<lambda>u.
     bindM (tags_browse e) (\<lambda>ghostTags.
     bindM (create_tags e ghostTags (tag_list p)) (\<lambda>u.
     bindM (liftR (toISOString (dateupload p * 1000))) (\<lambda>pub.
     bindM (liftR (description_content p)) (\<lambda>c.
     posts_add e
       \<lparr>post_title = title p, html = ''<p>'' @ c @ ''</p>'', status = ''published'',
        post_tags = tag_list p, feature_image = imageUpload_url,
        published_at = pub\<rparr>)))))) wa = (Returned u, w')"
    by (blast dest: bindM_ReturnedD)
  from r1 obtain url wb where 2: "images_upload e filePath wa = (Returned url, wb)"
    and r2: "bindM (unlink e filePath) (\<lambda>u.
     bindM (tags_browse e) (\<lambda>ghostTags.
     bindM (create_tags e ghostTags (tag_list p)) (\<lambda>u.
     bindM (liftR (toISOString (dateupload p * 1000))) (\<lambda>pub.
     bindM (liftR (description_content p)) (\<lambda>c.
     posts_add e
       \<lparr>post_title = title p, html = ''<p>'' @ c @ ''</p>'', status = ''published'',
        post_tags = tag_list p, feature_image = url,
        published_at = pub\<rparr>))))) wb = (Returned u, w')"
    by (blast dest: bindM_ReturnedD)
  from r2 obtain v wc where 3: "unlink e filePath wb = (Returned v, wc)"
    and r3: "bindM (tags_browse e) (\<lambda>ghostTags.
     bindM (create_tags e ghostTags (tag_list p)) (\<lambda>u.
     bindM (liftR (toISOString (dateupload p * 1000))) (\<lambda>pub.
     bindM (liftR (description_content p)) (\<lambda>c.
     posts_add e
       \<lparr>post_title = title p, html = ''<p>'' @ c @ ''</p>'', status = ''published'',
        post_tags = tag_list p, feature_image = url,
        published_at = pub\<rparr>)))) wc = (Returned u, w')"
    by (blast dest: bindM_ReturnedD)
  from r3 obtain g wd where 4: "tags_browse e wc = (Returned g, wd)"
    and r4: "bindM (create_tags e g (tag_list p)) (\<lambda>u.
     bindM (liftR (toISOString (dateupload p * 1000))) (\<lambda>pub.
     bindM (liftR (description_content p)) (\<lambda>c.
     posts_add e
       \<lparr>post_title = title p, html = ''<p>'' @ c @ ''</p>'', status = ''published'',
        post_tags = tag_list p, feature_image = url,
        published_at = pub\<rparr>))) wd = (Returned u, w')"
    by (blast dest: bindM_ReturnedD)
  from r4 obtain v' we where 5: "create_tags e g (tag_list p) wd = (Returned v', we)"
    and r5: "bindM (liftR (toISOString (dateupload p * 1000))) (\<lambda>pub.
     bindM (liftR (description_content p)) (\<lambda>c.
     posts_add e
       \<lparr>post_title = title p, html = ''<p>'' @ c @ ''</p>'', status = ''published'',
        post_tags = tag_list p, feature_image = url,
        published_at = pub\<rparr>)) we = (Returned u, w')"
    by (blast dest: bindM_ReturnedD)
  from r5 obtain iso wf where 6: "liftR (toISOString (dateupload p * 1000)) we = (Returned iso, wf)"
    and r6: "bindM (liftR (description_content p)) (\<lambda>c.
     posts_add e
       \<lparr>post_title = title p, html = ''<p>'' @ c @ ''</p>'', status = ''published'',
        post_tags = tag_list p, feature_image = url,
        published_at = iso\<rparr>) wf = (Returned u, w')"
    by (blast dest: bindM_ReturnedD)
  from r6 obtain c wg where 7: "liftR (description_content p) wf = (Returned c, wg)"
    and 8: "posts_add e (post_of p c url iso) wg = (Returned u, w')"
    unfolding post_of_def by (blast dest: bindM_ReturnedD)
  note a = download_to_ReturnedD [OF 1]
  note b = images_upload_ReturnedD [OF 2]
  note c = unlink_ReturnedD [OF 3]
  note d = tags_browse_ReturnedD [OF 4]
  note e = create_tags_ReturnedD [OF 5]
  note f = liftR_ReturnedD [OF 6]
  note g = liftR_ReturnedD [OF 7]
  note h = posts_add_ReturnedD [OF 8]
  have tags: "ghost_tags wc = ghost_tags w" using a b c by simp
  have "description p = Some c" using g by (simp add: description_content_ReturnedD)
  moreover have "toISOString (dateupload p * 1000) = Returned iso" using f by simp
  moreover have "net e (url_o p) = Response" using a by simp
  moreover have "w' = w\<lparr>trace := trace w @ [Download (url_o p), ImagesUpload d, Unlink d, TagsBrowse]
                  @ map TagsAdd (missing_tags (take 10000 (ghost_tags w)) (tag_list p))
                  @ [PostsAdd (post_of p c (hosted_url e d) iso)],
              files := files w - {d},
              ghost_tags := ghost_tags w @ missing_tags (take 10000 (ghost_tags w)) (tag_list p),
              ghost_posts := ghost_posts w @ [post_of p c (hosted_url e d) iso]\<rparr>"
    using a b c d e f g h tags by simp
  ultimately show ?thesis by blast
qed

text \<open>
  Claim C8. When every sub-step of the attempt for a photo succeeds, exactly one post is
  added: its title is the photo's title, its html the description between \<open>''<p>''\<close>
  and \<open>''</p>''\<close>, its status \<open>''published''\<close>, its tags the computed tag list, its
  feature image the URL the image upload returned for the downloaded file, and its
  publication time the ISO rendering of \<open>dateupload * 1000\<close> milliseconds. Adding it is
  the last call of the attempt. Both variants.
\<close>

theorem post_contents:
  "(publish (downloadImage e) e p w = (Returned (), w') \<longrightarrow>
      (\<exists>c iso. description p = Some c \<and> toISOString (dateupload p * 1000) = Returned iso
         \<and> ghost_posts w' = ghost_posts w @
              [\<lparr>post_title = title p, html = ''<p>'' @ c @ ''</p>'', status = ''published'',
                post_tags = tag_list p,
                feature_image = hosted_url e (resolve_tmp (basename (url_o p))),
                published_at = iso\<rparr>]
         \<and> last (trace w') = PostsAdd (last (ghost_posts w'))))
   \<and> (publish (downloadImage_part000 e) e p w = (Returned (), w') \<longrightarrow>
      (\<exists>c iso. description p = Some c \<and> toISOString (dateupload p * 1000) = Returned iso
         \<and> ghost_posts w' = ghost_posts w @
              [\<lparr>post_title = title p, html = ''<p>'' @ c @ ''</p>'', status = ''published'',
                post_tags = tag_list p,
                feature_image = hosted_url e (basename (url_o p)),
                published_at = iso\<rparr>]
         \<and> last (trace w') = PostsAdd (last (ghost_posts w'))))"
proof (intro conjI impI)
  assume "publish (downloadImage e) e p w = (Returned (), w')"
  then have "publish (download_to e (resolve_tmp (basename (url_o p)))) e p w = (Returned (), w')"
    by (simp add: publish_def downloadImage_def)
  from publish_ReturnedD [OF this]
  show "\<exists>c iso. description p = Some c \<and> toISOString (dateupload p * 1000) = Returned iso
         \<and> ghost_posts w' = ghost_posts w @
              [\<lparr>post_title = title p, html = ''<p>'' @ c @ ''</p>'', status = ''published'',
                post_tags = tag_list p,
                feature_image = hosted_url e (resolve_tmp (basename (url_o p))),
                published_at = iso\<rparr>]
         \<and> last (trace w') = PostsAdd (last (ghost_posts w'))"
    by (auto simp: post_of_def)
next
  assume "publish (downloadImage_part000 e) e p w = (Returned (), w')"
  then have "publish (download_to e (basename (url_o p))) e p w = (Returned (), w')"
    by (simp add: publish_def downloadImage_part000_def)
  from publish_ReturnedD [OF this]
  show "\<exists>c iso. description p = Some c \<and> toISOString (dateupload p * 1000) = Returned iso
         \<and> ghost_posts w' = ghost_posts w @
              [\<lparr>post_title = title p, html = ''<p>'' @ c @ ''</p>'', status = ''published'',
                post_tags = tag_list p,
                feature_image = hosted_url e (basename (url_o p)),
                published_at = iso\<rparr>]
         \<and> last (trace w') = PostsAdd (last (ghost_posts w'))"
    by (auto simp: post_of_def)
qed

subsection \<open>The tag list\<close>

lemma split_str_no_sep: "sep \<notin> set t \<Longrightarrow> split_str sep t = [t]"
  by (induction t) auto

lemma split_str_prefix: "sep \<notin> set t \<Longrightarrow> split_str sep (t @ sep # r) = t # split_str sep r"
  by (induction t) auto

lemma split_str_join_str:
  "ws \<noteq> [] \<Longrightarrow> \<forall>t\<in>set ws. sep \<notin> set t \<Longrightarrow> split_str sep (join_str sep ws) = ws"
proof (induction sep ws rule: join_str.induct)
  case (1 sep)
  then show ?case by simp
next
  case (2 sep t)
  then show ?case by (simp add: split_str_no_sep)
next
  case (3 sep t v ws)
  then show ?case by (simp add: split_str_prefix)
qed

lemma tags_added_append: "tags_added (xs @ ys) = tags_added xs @ tags_added ys"
  by (simp add: tags_added_def)

lemma tags_added_Cons: "tags_added (c # cs) = tag_added c @ tags_added cs"
  by (simp add: tags_added_def)

lemma tags_added_Nil: "tags_added [] = []"
  by (simp add: tags_added_def)

lemma tags_added_TagsAdd: "tags_added (map TagsAdd ns) = ns"
  by (induction ns) (simp_all add: tags_added_def)

text \<open>
  Claim C6, as amended. The tag list is a list, not a set: the pieces of the tag string
  between single spaces, then \<open>''flickr''\<close>, sorted ascending with repetitions kept. For
  a tag string made of non-empty tokens without spaces joined by single spaces these
  pieces are the tokens. One \<^verbatim>\<open>ghost.tags.add\<close> is made for each element of the list
  that the listing of the blog's tags does not show, in the order of the list, and the
  post carries the list.
\<close>

theorem tag_list_and_creation:
  assumes "ws \<noteq> []"
    and "\<forall>t\<in>set ws. t \<noteq> [] \<and> CHR '' '' \<notin> set t"
    and "tags p = join_str CHR '' '' ws"
    and "publish (downloadImage e) e p w = (Returned (), w')"
  shows "tag_list p = sort (ws @ [''flickr''])
    \<and> sorted (tag_list p)
    \<and> set (tag_list p) = set ws \<union> {''flickr''}
    \<and> tags_added (trace w') = tags_added (trace w) @
          filter (\<lambda>t. t \<notin> set (take 10000 (ghost_tags w))) (tag_list p)
    \<and> post_tags (last (ghost_posts w')) = tag_list p"
proof -
  have "split_str CHR '' '' (tags p) = ws"
    using assms(1,2,3) by (simp add: split_str_join_str)
  then have t: "tag_list p = sort (ws @ [''flickr''])"
    by (simp add: tag_list_def)
  have "publish (download_to e (resolve_tmp (basename (url_o p)))) e p w = (Returned (), w')"
    using assms(4) by (simp add: publish_def downloadImage_def)
  from publish_ReturnedD [OF this] obtain c iso where
    tr: "trace w' = trace w @
           [Download (url_o p), ImagesUpload (resolve_tmp (basename (url_o p))),
            Unlink (resolve_tmp (basename (url_o p))), TagsBrowse]
           @ map TagsAdd (missing_tags (take 10000 (ghost_tags w)) (tag_list p))
           @ [PostsAdd (post_of p c (hosted_url e (resolve_tmp (basename (url_o p)))) iso)]"
    and po: "ghost_posts w' =
           ghost_posts w @ [post_of p c (hosted_url e (resolve_tmp (basename (url_o p)))) iso]"
    by auto
  have "tags_added (trace w') = tags_added (trace w) @
          filter (\<lambda>t. t \<notin> set (take 10000 (ghost_tags w))) (tag_list p)
    \<and> post_tags (last (ghost_posts w')) = tag_list p"
    unfolding tr po
    by (simp add: tags_added_append tags_added_TagsAdd tags_added_Cons tags_added_Nil
        missing_tags_def post_of_def)
  then show ?thesis using t by auto
qed

subsection \<open>Failures inside the attempt\<close>

text \<open>
  What is stored for a photo that is not skipped: the status as first built when the
  attempt returns, and otherwise that status with \<open>success = False\<close> and the
  \<^verbatim>\<open>message\<close> property of the caught value. The write is the last call of the
  iteration.
\<close>

lemma attempt_recorded:
  assumes "throws e w (StatusGet (photo_id p)) = None"
    and "\<not> already_done (photo_status_db w (photo_id p))"
    and "description p = Some c"
    and "try_catch (publish dl e p) (w\<lparr>trace := trace w @ [StatusGet (photo_id p)]\<rparr>)
          = (Returned caught, w2)"
    and "throws e w2 (StatusSet (photo_id p) (final_status (initial_status p c) caught)) = None"
  shows "process_photo dl e p w =
    (Returned (),
     w2\<lparr>trace := trace w2 @ [StatusSet (photo_id p) (final_status (initial_status p c) caught)],
        photo_status_db :=
          (photo_status_db w2)(photo_id p \<mapsto> final_status (initial_status p c) caught)\<rparr>)"
  by (simp add: process_photo_attempt [OF assms(1,2,3)] bindM_def assms(4)
      photo_status_set_ok [OF assms(5)])

text \<open>
  A request error, with the file removed again: the promise is rejected with a string,
  whose \<^verbatim>\<open>message\<close> property is undefined.
\<close>

lemma download_request_error:
  assumes "net e u = RequestError m"
    and "throws e (w\<lparr>trace := trace w @ [Download u], files := insert d (files w)\<rparr>) (Unlink d)
          = None"
  shows "download_to e d u w =
    (Thrown (JsString m), w\<lparr>trace := trace w @ [Download u, Unlink d], files := files w - {d}\<rparr>)"
  using assms by (simp add: download_to_def Let_def unlink_def ext_call_ok)

lemma request_error_caught:
  assumes "net e (url_o p) = RequestError m"
    and "throws e (w\<lparr>trace := trace w @ [Download (url_o p)], files := insert d (files w)\<rparr>)
          (Unlink d) = None"
  shows "try_catch (publish (download_to e d) e p) w =
    (Returned (Some (JsString m)),
     w\<lparr>trace := trace w @ [Download (url_o p), Unlink d], files := files w - {d}\<rparr>)"
  by (simp add: try_catch_def publish_def bindM_def download_request_error [OF assms])

text \<open>
  An image upload that throws: the attempt ends there, and the downloaded file is among
  the files.
\<close>

lemma upload_throws:
  assumes "net e (url_o p) = Response"
    and "throws e (w\<lparr>trace := trace w @ [Download (url_o p)], files := insert d (files w)\<rparr>)
          (ImagesUpload d) = Some x"
  shows "try_catch (publish (download_to e d) e p) w =
    (Returned (Some x),
     w\<lparr>trace := trace w @ [Download (url_o p), ImagesUpload d], files := insert d (files w)\<rparr>)"
  using assms
  by (simp add: try_catch_def publish_def bindM_def download_to_def Let_def images_upload_def
      ext_call_throws)

section \<open>The claims on concrete runs\<close>

lemma iso_A: "toISOString 1700000000000 = Returned ''2023-11-14T22:13:20.000Z''"
  by code_simp

lemma tags_A: "tag_list photo_A = [''beach'', ''flickr'', ''sunset'']"
  by code_simp

lemma base_A: "basename ''https://f.example/a.jpg'' = ''a.jpg''"
  by code_simp

lemmas run_defs = photoUploader_def photoUploader_part000_def bindM_def last_check_ref_get_def
  ext_call_def liftR_def getPhotos_def process_photo_def photo_status_get_def returnM_def
  description_content_def try_catch_def publish_def downloadImage_def downloadImage_part000_def
  download_to_def images_upload_def unlink_def tags_browse_def tags_add_def posts_add_def
  photo_status_set_def last_check_ref_set_def initial_status_def next_check_time_def
  next_check_time_part000_def resolve_tmp_def

lemma example_run: "photoUploader example_env example_world = (Returned (), example_world_after)"
  by (simp add: run_defs example_env_def example_world_def example_world_after_def post_A_def
      status_A_def iso_A tags_A [unfolded photo_A_def] base_A photo_A_def)

lemma quiet_run: "fst (photoUploader quiet_env example_world) = Returned ()"
  by (simp add: run_defs quiet_env_def example_env_def example_world_def iso_A)

lemma quiet_run_part000: "fst (photoUploader_part000 quiet_env example_world) = Returned ()"
  by (simp add: run_defs quiet_env_def example_env_def example_world_def)

theorem safety_margin_checkpoint_witness:
  "photoUploader example_env example_world = (Returned (), example_world_after)
   \<and> last_check_time_db example_world_after = Some ((1700100000123 - 86400000) div 1000)
   \<and> last_check_time_db example_world_after = Some 1700013600
   \<and> last_check_time_db example_world = Some 1700000000"
  using safety_margin_checkpoint [OF example_run] example_run
  by (simp add: example_env_def example_world_def)

theorem checkpoint_policies_differ_witness:
  "0 \<le> now quiet_env
   \<and> fst (photoUploader quiet_env example_world) = Returned ()
   \<and> fst (photoUploader_part000 quiet_env example_world) = Returned ()
   \<and> last_check_time_db (snd (photoUploader quiet_env example_world)) = Some 1700013600
   \<and> last_check_time_db (snd (photoUploader_part000 quiet_env example_world)) = Some 1700100000123"
proof -
  have n: "0 \<le> now quiet_env" by (simp add: quiet_env_def example_env_def)
  have a: "photoUploader quiet_env example_world =
      (Returned (), snd (photoUploader quiet_env example_world))"
    using quiet_run by (simp add: prod_eq_iff)
  have b: "photoUploader_part000 quiet_env example_world =
      (Returned (), snd (photoUploader_part000 quiet_env example_world))"
    using quiet_run_part000 by (simp add: prod_eq_iff)
  from checkpoint_policies_differ [OF n a b] quiet_run quiet_run_part000 n
  show ?thesis by (simp add: quiet_env_def example_env_def)
qed

theorem abort_before_loop_witness:
  "throws (example_env\<lparr>throws := db_down\<rparr>) example_world CheckpointGet
     = Some (JsError ''PERMISSION_DENIED'')
   \<and> photoUploader (example_env\<lparr>throws := db_down\<rparr>) example_world
     = (Thrown (JsError ''PERMISSION_DENIED''), example_world\<lparr>trace := [CheckpointGet]\<rparr>)
   \<and> photoUploader_part000 (example_env\<lparr>throws := db_down\<rparr>) example_world
     = (Thrown (JsError ''PERMISSION_DENIED''), example_world\<lparr>trace := [CheckpointGet]\<rparr>)
   \<and> throws (example_env\<lparr>throws := flickr_down\<rparr>) example_world CheckpointGet = None
   \<and> throws (example_env\<lparr>throws := flickr_down\<rparr>) (example_world\<lparr>trace := [CheckpointGet]\<rparr>)
        (GetPhotos (Some 1700000000)) = Some (JsError ''getaddrinfo ENOTFOUND api.flickr.com'')
   \<and> \<bar>to_number (last_check_time_db example_world) * 1000\<bar> \<le> 8640000000000000
   \<and> photoUploader (example_env\<lparr>throws := flickr_down\<rparr>) example_world
     = (Thrown (JsError ''getaddrinfo ENOTFOUND api.flickr.com''),
        example_world\<lparr>trace := [CheckpointGet, GetPhotos (Some 1700000000)]\<rparr>)
   \<and> photoUploader_part000 (example_env\<lparr>throws := flickr_down\<rparr>) example_world
     = (Thrown (JsError ''getaddrinfo ENOTFOUND api.flickr.com''),
        example_world\<lparr>trace := [CheckpointGet, GetPhotos (Some 1700000000)]\<rparr>)"
  using abort_before_loop [of "example_env\<lparr>throws := db_down\<rparr>" example_world
      "JsError ''PERMISSION_DENIED''"]
    abort_before_loop [of "example_env\<lparr>throws := flickr_down\<rparr>" example_world
      "JsError ''getaddrinfo ENOTFOUND api.flickr.com''"]
  by (simp add: example_env_def example_world_def db_down_def flickr_down_def)

theorem skip_published_witness:
  "already_done (photo_status_db done_world (photo_id photo_A))
   \<and> snd (process_photo (downloadImage example_env) example_env photo_A done_world)
       = done_world\<lparr>trace := [StatusGet ''1'']\<rparr>
   \<and> flickr_photos example_env (last_check_time_db done_world) = [photo_A]
   \<and> published_state (snd (photoUploader example_env done_world)) = published_state done_world
   \<and> published_state (snd (photoUploader_part000 example_env done_world)) = published_state done_world
   \<and> photo_status_db (snd (photoUploader example_env done_world)) ''1'' = Some status_A
   \<and> photo_status_db (run_all [example_env, quiet_env, example_env] done_world) ''1''
       = Some status_A"
proof -
  have a: "already_done (photo_status_db done_world (photo_id photo_A))"
    by (simp add: done_world_def photo_A_def status_A_def)
  have b: "\<forall>q\<in>set (flickr_photos example_env (last_check_time_db done_world)).
         already_done (photo_status_db done_world (photo_id q))"
    by (simp add: example_env_def done_world_def photo_A_def status_A_def)
  have c: "already_done (photo_status_db done_world ''1'')"
    by (simp add: done_world_def status_A_def)
  from skip_published [where w = done_world and p = photo_A and dl = "downloadImage example_env"
      and e = example_env and i = "''1''" and es = "[example_env, quiet_env, example_env]"] a b c
  show ?thesis
    by (simp add: done_world_def example_world_def photo_A_def example_env_def)
qed


lemma example_publish:
  "fst (publish (downloadImage example_env) example_env photo_A example_world) = Returned ()"
  by (simp add: run_defs example_env_def example_world_def iso_A tags_A [unfolded photo_A_def]
      base_A photo_A_def)


lemma example_publish_part000:
  "fst (publish (downloadImage_part000 example_env) example_env photo_A example_world)
     = Returned ()"
  by (simp add: run_defs example_env_def example_world_def iso_A tags_A [unfolded photo_A_def]
      base_A photo_A_def)

lemma photo_A_fields:
  "title photo_A = ''Alpha''" "description photo_A = Some ''first''"
  "dateupload photo_A * 1000 = 1700000000000" "url_o photo_A = ''https://f.example/a.jpg''"
  "photo_id photo_A = ''1''" "tags photo_A = ''beach sunset''"
  by (simp_all add: photo_A_def)

theorem post_contents_witness:
  "fst (publish (downloadImage example_env) example_env photo_A example_world) = Returned ()
   \<and> ghost_posts (snd (publish (downloadImage example_env) example_env photo_A example_world))
       = [post_A]
   \<and> fst (publish (downloadImage_part000 example_env) example_env photo_A example_world)
       = Returned ()
   \<and> ghost_posts (snd (publish (downloadImage_part000 example_env) example_env photo_A
         example_world))
       = [post_A\<lparr>feature_image := ''https://b.examplea.jpg''\<rparr>]"
proof -
  define W where "W = snd (publish (downloadImage example_env) example_env photo_A example_world)"
  define V where
    "V = snd (publish (downloadImage_part000 example_env) example_env photo_A example_world)"
  have a: "publish (downloadImage example_env) example_env photo_A example_world = (Returned (), W)"
    using example_publish by (simp add: prod_eq_iff W_def)
  have b: "publish (downloadImage_part000 example_env) example_env photo_A example_world
      = (Returned (), V)"
    using example_publish_part000 by (simp add: prod_eq_iff V_def)
  have h: "hosted_url example_env (resolve_tmp (basename ''https://f.example/a.jpg''))
      = ''https://b.example/tmp/a.jpg''"
    "hosted_url example_env (basename ''https://f.example/a.jpg'') = ''https://b.examplea.jpg''"
    by (simp_all add: base_A resolve_tmp_def example_env_def)
  have g: "ghost_posts example_world = []" by (simp add: example_world_def)
  from post_contents [of example_env photo_A example_world W] a
  obtain c iso where "description photo_A = Some c"
    and "toISOString (dateupload photo_A * 1000) = Returned iso"
    and "ghost_posts W = ghost_posts example_world @
              [\<lparr>post_title = title photo_A, html = ''<p>'' @ c @ ''</p>'', status = ''published'',
                post_tags = tag_list photo_A,
                feature_image = hosted_url example_env (resolve_tmp (basename (url_o photo_A))),
                published_at = iso\<rparr>]"
    by blast
  then have w: "ghost_posts W = [post_A]"
    by (clarsimp simp: photo_A_fields iso_A tags_A h g post_A_def)
  from post_contents [of example_env photo_A example_world V] b
  obtain c iso where "description photo_A = Some c"
    and "toISOString (dateupload photo_A * 1000) = Returned iso"
    and "ghost_posts V = ghost_posts example_world @
              [\<lparr>post_title = title photo_A, html = ''<p>'' @ c @ ''</p>'', status = ''published'',
                post_tags = tag_list photo_A,
                feature_image = hosted_url example_env (basename (url_o photo_A)),
                published_at = iso\<rparr>]"
    by blast
  then have v: "ghost_posts V = [post_A\<lparr>feature_image := ''https://b.examplea.jpg''\<rparr>]"
    by (clarsimp simp: photo_A_fields iso_A tags_A h g post_A_def)
  show ?thesis
    using example_publish example_publish_part000 w v by (simp add: W_def V_def)
qed

theorem tag_list_and_creation_witness:
  "tags photo_A = join_str CHR '' '' [''beach'', ''sunset'']
   \<and> ghost_tags example_world = [''beach'', ''flickr'']
   \<and> tag_list photo_A = [''beach'', ''flickr'', ''sunset'']
   \<and> tags_added (trace (snd (publish (downloadImage example_env) example_env photo_A
         example_world))) = [''sunset'']
   \<and> post_tags (last (ghost_posts (snd (publish (downloadImage example_env) example_env
         photo_A example_world)))) = [''beach'', ''flickr'', ''sunset'']"
proof -
  have a: "publish (downloadImage example_env) example_env photo_A example_world =
      (Returned (), snd (publish (downloadImage example_env) example_env photo_A example_world))"
    using example_publish by (simp add: prod_eq_iff)
  have b: "[''beach'', ''sunset''] \<noteq> ([] :: string list)" by simp
  have c: "\<forall>t\<in>set [''beach'', ''sunset'']. t \<noteq> [] \<and> CHR '' '' \<notin> set t" by simp
  have d: "tags photo_A = join_str CHR '' '' [''beach'', ''sunset'']" by (simp add: photo_A_def)
  from tag_list_and_creation [OF b c d a] d
  show ?thesis
    by (simp add: tags_A example_world_def tags_added_def)
qed

theorem tag_list_counterexample:
  "tag_list (photo_A\<lparr>tags := ''flickr beach''\<rparr>) = [''beach'', ''flickr'', ''flickr'']
   \<and> spec_tag_list ''flickr beach'' = [''beach'', ''flickr'']
   \<and> tag_list (photo_A\<lparr>tags := ''flickr beach''\<rparr>) \<noteq> spec_tag_list ''flickr beach''"
proof -
  have a: "tag_list (photo_A\<lparr>tags := ''flickr beach''\<rparr>) = [''beach'', ''flickr'', ''flickr'']"
    by code_simp
  have b: "spec_tag_list ''flickr beach'' = [''beach'', ''flickr'']"
    by code_simp
  show ?thesis using a b by simp
qed


lemma upload_down_run:
  "photoUploader upload_down_env example_world = (Returned (), upload_down_world_after)"
  by (simp add: run_defs upload_down_env_def upload_down_def example_env_def example_world_def
      upload_down_world_after_def failed_status_A_def status_A_def iso_A base_A photo_A_def)

lemma request_error_run:
  "photoUploader request_error_env example_world = (Returned (), request_error_world_after)"
  by (simp add: run_defs request_error_env_def example_env_def example_world_def
      request_error_world_after_def failed_status_A_def status_A_def iso_A base_A photo_A_def)

text \<open>
  Claim C2, at a failing input. The image request of the one listed photo ends in a
  request error: \<^verbatim>\<open>downloadImage\<close> rejects with the message string itself, the
  \<^verbatim>\<open>catch\<close> block reads \<^verbatim>\<open>.message\<close> of that string, and the status written for the
  photo has \<open>success = False\<close> and \<open>error = Undefined\<close>: the description of the failure
  is not in it.
\<close>

theorem request_error_message_lost:
  "net request_error_env (url_o photo_A) = RequestError ''socket hang up''
   \<and> fst (photoUploader request_error_env example_world) = Returned ()
   \<and> photo_status_db (snd (photoUploader request_error_env example_world)) ''1''
       = Some (status_A\<lparr>success := False, error := Undefined\<rparr>)
   \<and> error (status_A\<lparr>success := False, error := Undefined\<rparr>) \<noteq> Str ''socket hang up''"
proof -
  have "net request_error_env (url_o photo_A) = RequestError ''socket hang up''"
    by (simp add: request_error_env_def)
  then show ?thesis
    by (simp add: request_error_run request_error_world_after_def failed_status_A_def)
qed

text \<open>
  Claim C4, at a failing input. The image upload of the one listed photo throws: the
  \<^verbatim>\<open>unlink\<close> after it is skipped, the failure is recorded in the photo's status, the
  run returns, and the downloaded file is still in \<^verbatim>\<open>/tmp\<close>.
\<close>

theorem upload_failure_leaves_file:
  "files example_world = {}
   \<and> throws upload_down_env example_world (ImagesUpload ''/tmp/a.jpg'')
       = Some (JsError ''Request failed with status code 500'')
   \<and> fst (photoUploader upload_down_env example_world) = Returned ()
   \<and> photo_status_db (snd (photoUploader upload_down_env example_world)) ''1''
       = Some (status_A\<lparr>success := False,
                         error := Str ''Request failed with status code 500''\<rparr>)
   \<and> files (snd (photoUploader upload_down_env example_world)) = {''/tmp/a.jpg''}"
proof -
  have "throws upload_down_env example_world (ImagesUpload ''/tmp/a.jpg'')
       = Some (JsError ''Request failed with status code 500'')"
    by (simp add: upload_down_env_def upload_down_def)
  moreover have "files example_world = {}"
    by (simp add: example_world_def)
  ultimately show ?thesis
    by (simp add: upload_down_run upload_down_world_after_def failed_status_A_def)
qed


theorem capture_gaps_witness:
  "description photo_N = None
   \<and> photoUploader (example_env\<lparr>flickr_photos := (\<lambda>t. [photo_N, photo_A])\<rparr>) example_world
       = (Thrown (JsError ''Cannot read properties of undefined (reading _content)''),
          example_world\<lparr>trace := [CheckpointGet, GetPhotos (Some 1700000000), StatusGet ''2'']\<rparr>)
   \<and> fst (photoUploader (example_env\<lparr>throws := status_write_down\<rparr>) example_world)
       = Thrown (JsError ''PERMISSION_DENIED'')
   \<and> last_check_time_db (snd (photoUploader (example_env\<lparr>throws := status_write_down\<rparr>)
         example_world)) = Some 1700000000
   \<and> photo_status_db (snd (photoUploader (example_env\<lparr>throws := status_write_down\<rparr>)
         example_world)) ''1'' = None"
proof -
  define e1 where "e1 = example_env\<lparr>flickr_photos := (\<lambda>t. [photo_N, photo_A])\<rparr>"
  define e2 where "e2 = example_env\<lparr>throws := status_write_down\<rparr>"
  define w2 where "w2 = snd (try_catch (publish (downloadImage e2) e2 photo_A)
      (listed_world\<lparr>trace := trace listed_world @ [StatusGet (photo_id photo_A)]\<rparr>))"
  have date: "\<bar>to_number (last_check_time_db example_world) * 1000\<bar> \<le> 8640000000000000"
    by (simp add: example_world_def)
  have lw: "example_world\<lparr>trace := trace example_world @
      [CheckpointGet, GetPhotos (last_check_time_db example_world)]\<rparr> = listed_world"
    by (simp add: listed_world_def example_world_def)
  have n: "description photo_N = None" by (simp add: photo_N_def)
  have first: "photoUploader e1 example_world =
      (Thrown (JsError ''Cannot read properties of undefined (reading _content)''),
       listed_world\<lparr>trace := trace listed_world @ [StatusGet (photo_id photo_N)]\<rparr>)"
  proof -
    have get: "throws e1 example_world CheckpointGet = None"
      by (simp add: e1_def example_env_def)
    have list: "throws e1 (example_world\<lparr>trace := trace example_world @ [CheckpointGet]\<rparr>)
        (GetPhotos (last_check_time_db example_world)) = None"
      by (simp add: e1_def example_env_def)
    have photos: "flickr_photos e1 (last_check_time_db example_world) = [] @ photo_N # [photo_A]"
      by (simp add: e1_def)
    have before: "photo_loop (downloadImage e1) e1 []
        (example_world\<lparr>trace := trace example_world @
          [CheckpointGet, GetPhotos (last_check_time_db example_world)]\<rparr>)
        = (Returned (), listed_world)"
      by (simp add: returnM_def lw)
    have sget: "throws e1 listed_world (StatusGet (photo_id photo_N)) = None"
      by (simp add: e1_def example_env_def)
    have fresh: "\<not> already_done (photo_status_db listed_world (photo_id photo_N))"
      by (simp add: listed_world_def example_world_def)
    from capture_gaps [OF get date list photos before sget fresh] n
    show ?thesis by simp
  qed
  have second: "photoUploader e2 example_world =
      (Thrown (JsError ''PERMISSION_DENIED''),
       w2\<lparr>trace := trace w2 @
          [StatusSet (photo_id photo_A) (final_status (initial_status photo_A ''first'') None)]\<rparr>)
      \<and> last_check_time_db w2 = last_check_time_db example_world
      \<and> photo_status_db w2 = photo_status_db listed_world"
  proof -
    have get: "throws e2 example_world CheckpointGet = None"
      by (simp add: e2_def status_write_down_def)
    have list: "throws e2 (example_world\<lparr>trace := trace example_world @ [CheckpointGet]\<rparr>)
        (GetPhotos (last_check_time_db example_world)) = None"
      by (simp add: e2_def status_write_down_def)
    have photos: "flickr_photos e2 (last_check_time_db example_world) = [] @ photo_A # []"
      by (simp add: e2_def example_env_def)
    have before: "photo_loop (downloadImage e2) e2 []
        (example_world\<lparr>trace := trace example_world @
          [CheckpointGet, GetPhotos (last_check_time_db example_world)]\<rparr>)
        = (Returned (), listed_world)"
      by (simp add: returnM_def lw)
    have sget: "throws e2 listed_world (StatusGet (photo_id photo_A)) = None"
      by (simp add: e2_def status_write_down_def)
    have fresh: "\<not> already_done (photo_status_db listed_world (photo_id photo_A))"
      by (simp add: listed_world_def example_world_def)
    have d: "description photo_A = Some ''first''" by (simp add: photo_A_def)
    have "fst (try_catch (publish (downloadImage e2) e2 photo_A)
        (listed_world\<lparr>trace := trace listed_world @ [StatusGet (photo_id photo_A)]\<rparr>))
        = Returned None"
      by (simp add: run_defs e2_def status_write_down_def example_env_def listed_world_def
          example_world_def iso_A tags_A [unfolded photo_A_def] base_A photo_A_def)
    then have t: "try_catch (publish (downloadImage e2) e2 photo_A)
        (listed_world\<lparr>trace := trace listed_world @ [StatusGet (photo_id photo_A)]\<rparr>)
        = (Returned None, w2)"
      by (simp add: prod_eq_iff w2_def)
    have x: "throws e2 w2
        (StatusSet (photo_id photo_A) (final_status (initial_status photo_A ''first'') None))
        = Some (JsError ''PERMISSION_DENIED'')"
      by (simp add: e2_def status_write_down_def)
    from capture_gaps [OF get date list photos before sget fresh,
        of "''first''" None w2 "JsError ''PERMISSION_DENIED''"] d t x
    show ?thesis by simp
  qed
  show ?thesis
    using n first second
    by (simp add: e1_def e2_def listed_world_def example_world_def photo_N_def)
qed

end
